theory Spec2Isabelle
  imports Complex_Main "HOL-Library.Word"
begin

unbundle bit_operations_syntax

section \<open>The OpenCL compute context of \<^verbatim>\<open>qle/math/openclenvironment.cpp\<close>\<close>

text \<open>
  The class \<^verbatim>\<open>OpenClContext\<close> is a mutable state machine in front of an OpenCL device.
  It is embedded by explicit state passing: every member function takes the context and
  returns its result together with the context it leaves behind. A failed
  \<^verbatim>\<open>QL_REQUIRE\<close> or \<^verbatim>\<open>QL_FAIL\<close> throws; what the members hold at that moment stays,
  so a failure is the value \<open>(Inl error, context at the throw)\<close>.

  \<^item> \<^verbatim>\<open>std::size_t\<close> is a 64-bit word: \<open>+\<close>, \<open>-\<close> and \<open>*\<close> wrap around as the
    unsigned arithmetic of the code does.
  \<^item> The size of a vector is \<open>of_nat (length xs)\<close>, an element read is \<open>xs ! unat i\<close>.
  \<^item> The vectors that the class keeps in parallel (they are only ever extended together,
    in \<^verbatim>\<open>initiateCalculation\<close> respectively \<^verbatim>\<open>createInputVariable\<close>) are one list of
    records each: \<open>calcs\<close> for \<^verbatim>\<open>size_\<close>, \<^verbatim>\<open>disposed_\<close>, \<^verbatim>\<open>hasKernel_\<close>,
    \<^verbatim>\<open>version_\<close>, \<^verbatim>\<open>program_\<close>, \<^verbatim>\<open>kernel_\<close>, \<^verbatim>\<open>inputBufferSize_\<close>,
    \<^verbatim>\<open>nOutputVars_\<close>, and \<open>inputVars\<close> for \<^verbatim>\<open>inputVarOffset_\<close> and
    \<^verbatim>\<open>inputVarIsScalar_\<close>.
  \<^item> An element access outside a vector is undefined behaviour in C++. The model
    makes it the error \<open>Undefined\<close>, which no \<^verbatim>\<open>QL_REQUIRE\<close> produces.
  \<^item> The device is outside the program. Each OpenCL API call is appended to \<open>cl_log\<close>,
    and the status it returns is \<open>cl_answers\<close> at the number of calls made before it, so
    a theorem about every \<open>cl_answers\<close> is a theorem about every behaviour of the device.
    An object created by the call number \<open>k\<close> has the handle \<open>Suc k\<close>; \<open>0\<close> is the null
    handle.
  \<^item> Input values are real numbers; the rounding of the conversion to \<^verbatim>\<open>float\<close> and
    the wall-clock counters of \<^verbatim>\<open>DebugInfo\<close> are left out.
\<close>

subsection \<open>Data\<close>

type_synonym size_t = "64 word"
type_synonym cl_int = int
type_synonym handle = nat

datatype ComputeState = idle | createInput | createVariates | calc

text \<open>
  The failures of the code, by the condition that raises them. \<open>BadState\<close>: the call is
  not allowed in the current state; \<open>BadId\<close>: the calculation id is invalid, disposed or
  of another size; \<open>KernelExists\<close>: the current calculation has a kernel already;
  \<open>InternalError\<close>: the two internal checks of \<^verbatim>\<open>updateVariatesPool\<close>; \<open>DeviceOp\<close>: an
  OpenCL call returned the given status; \<open>BuildFailed\<close>: \<^verbatim>\<open>clBuildProgram\<close> did.
\<close>

datatype error =
    Unhealthy
  | DeviceInit cl_int
  | ZeroSize
  | BadId
  | BadState
  | NoCurrentId
  | KernelExists
  | InternalError
  | UnknownOpcode
  | OutputArity
  | CapabilityMismatch
  | InputBufferSizeMismatch
  | BuildFailed cl_int
  | DeviceOp cl_int
  | Undefined

text \<open>
  Modelled from the spec: the enumerators of \<^verbatim>\<open>RandomVariableOpCode\<close>
  (\<^verbatim>\<open>qle/math/randomvariable_opcodes.hpp\<close> is not among the sources, so their numeric
  values are unknown). An opcode argument is represented by the \<^verbatim>\<open>case\<close> label of
  \<^verbatim>\<open>applyOperation\<close> that it equals; \<open>OpUnlisted k\<close> is a value \<open>k\<close> that equals none of
  them and reaches the \<^verbatim>\<open>default\<close> branch.
\<close>

datatype RandomVariableOpCode =
    OpNone | OpAdd | OpSubtract | OpNegative | OpMult | OpDiv
  | OpIndicatorEq | OpIndicatorGt | OpIndicatorGeq | OpMin | OpMax
  | OpAbs | OpExp | OpSqrt | OpLog | OpPow
  | OpUnlisted size_t

text \<open>
  The program text handed to the device's compiler. The text of the variate kernels (the
  Mersenne twister and the inverse cumulative normal) is fixed up to the floating-point
  type; \<open>VariatesSource d\<close> stands for it, \<open>d\<close> telling double precision.
\<close>

datatype program_source = VariatesSource bool | SourceText string

datatype cl_call =
    CreateContext
  | CreateCommandQueue
  | CreateProgramWithSource program_source
  | BuildProgram handle
  | GetProgramBuildInfo handle
  | CreateKernel handle string
  | CreateBuffer size_t
  | SetKernelArg handle nat handle
  | SetKernelArgValue handle nat "64 word"
  | EnqueueNDRangeKernel handle size_t
  | EnqueueWriteBuffer handle size_t
  | EnqueueReadBuffer handle size_t size_t
  | EnqueueCopyBuffer handle handle size_t
  | WaitForEvents
  | Finish
  | ReleaseMemObject handle
  | ReleaseKernel handle
  | ReleaseProgram handle

record Settings =
  useDoublePrecision :: bool
  rngSeed :: "64 word"
  debug :: bool

record DebugInfo =
  numberOfOperations :: "64 word"

record CalcRecord =
  size_n :: size_t
  disposed :: bool
  hasKernel :: bool
  version :: size_t
  program :: handle
  kernel :: handle
  inputBufferSize :: size_t
  nOutputVars :: size_t

record InputVar =
  inputVarOffset :: size_t
  inputVarIsScalar :: bool

record OpenClContext =
  healthy :: bool
  initialized :: bool
  context_h :: handle
  queue_h :: handle
  deviceInfo :: "(string \<times> string) list"
  supportsDoublePrecision :: bool
  debugInfo :: DebugInfo
  calcs :: "CalcRecord list"
  variatesPoolSize :: size_t
  variatesPool :: handle
  variatesMtStateBuffer :: handle
  variatesProgram :: handle
  variatesKernelSeedInit :: handle
  variatesKernelTwist :: handle
  variatesKernelGenerate :: handle
  currentId :: size_t
  currentState :: ComputeState
  nVars :: size_t
  nVariates :: size_t
  settings :: Settings
  inputVars :: "InputVar list"
  inputVarValues32 :: "real list"
  inputVarValues64 :: "real list"
  freedVariables :: "size_t list"
  outputVariables :: "size_t list"
  currentSsa :: string
  cl_answers :: "nat \<Rightarrow> cl_int"
  cl_results :: "nat \<Rightarrow> 64 word"
  cl_log :: "cl_call list"

subsection \<open>Helpers\<close>

text \<open>\<^verbatim>\<open>std::to_string\<close> of an unsigned number: its decimal digits.\<close>

fun to_string :: "nat \<Rightarrow> string" where
  "to_string n =
     (if n < 10 then [''0123456789'' ! n]
      else to_string (n div 10) @ [''0123456789'' ! (n mod 10)])"

declare to_string.simps [simp del]

text \<open>
  \<^verbatim>\<open>v[id - 1]\<close> on the per-calculation vectors; the subtraction wraps for \<open>id = 0\<close>, as in
  the code, and an index outside the vector gives \<open>None\<close>.
\<close>

definition calc_at :: "CalcRecord list \<Rightarrow> size_t \<Rightarrow> CalcRecord option" where
  "calc_at cs i = (if unat (i - 1) < length cs then Some (cs ! unat (i - 1)) else None)"

definition calc_upd :: "CalcRecord list \<Rightarrow> size_t \<Rightarrow> CalcRecord \<Rightarrow> CalcRecord list" where
  "calc_upd cs i k = cs[unat (i - 1) := k]"

definition fpTypeStr :: "OpenClContext \<Rightarrow> string" where
  "fpTypeStr c = (if useDoublePrecision (settings c) then ''double'' else ''float'')"

subsection \<open>The device\<close>

text \<open>
  An API call: it is logged, and its status is the device's answer at its position. A
  creating call returns the new handle, or the null handle when it fails.
\<close>

definition cl :: "cl_call \<Rightarrow> OpenClContext \<Rightarrow> cl_int \<times> OpenClContext" where
  "cl call c = (cl_answers c (length (cl_log c)), c\<lparr>cl_log := cl_log c @ [call]\<rparr>)"

definition cl_create :: "cl_call \<Rightarrow> OpenClContext \<Rightarrow> cl_int \<times> handle \<times> OpenClContext" where
  "cl_create call c =
     (let err = cl_answers c (length (cl_log c))
      in (err, (if err = 0 then Suc (length (cl_log c)) else 0),
          c\<lparr>cl_log := cl_log c @ [call]\<rparr>))"

text \<open>
  \<^verbatim>\<open>releaseMem\<close>, \<^verbatim>\<open>releaseKernel\<close>, \<^verbatim>\<open>releaseProgram\<close>: the status of the release
  is only printed.
\<close>

definition releaseMem :: "handle \<Rightarrow> OpenClContext \<Rightarrow> OpenClContext" where
  "releaseMem m c = snd (cl (ReleaseMemObject m) c)"

definition releaseKernel :: "handle \<Rightarrow> OpenClContext \<Rightarrow> OpenClContext" where
  "releaseKernel k c = snd (cl (ReleaseKernel k) c)"

definition releaseProgram :: "handle \<Rightarrow> OpenClContext \<Rightarrow> OpenClContext" where
  "releaseProgram p c = snd (cl (ReleaseProgram p) c)"




subsection \<open>\<^verbatim>\<open>init\<close> and the health checks\<close>







subsection \<open>\<^verbatim>\<open>disposeCalculation\<close> and \<^verbatim>\<open>initiateCalculation\<close>\<close>

text \<open>
  \<^verbatim>\<open>disposeCalculation\<close> reads \<^verbatim>\<open>disposed_[id - 1]\<close> at once: there is no check of
  \<open>id\<close> against the number of records before the access.
\<close>

definition disposeCalculation ::
    "size_t \<Rightarrow> OpenClContext \<Rightarrow> (error + unit) \<times> OpenClContext" where
  "disposeCalculation ident c =
     (case calc_at (calcs c) ident of
        None \<Rightarrow> (Inl Undefined, c)
      | Some k \<Rightarrow>
          if disposed k then (Inl BadId, c)
          else (Inr (),
                releaseProgram (program k) (releaseKernel (kernel k)
                  (c\<lparr>calcs := calc_upd (calcs c) ident (k\<lparr>disposed := True\<rparr>)\<rparr>))))"

text \<open>The tail of \<^verbatim>\<open>initiateCalculation\<close>: reset variable info, set state, return.\<close>

definition resetVariableInfo ::
    "bool \<Rightarrow> OpenClContext \<Rightarrow> (error + size_t \<times> bool) \<times> OpenClContext" where
  "resetVariableInfo newCalc c =
     (let c1 = c\<lparr>nVars := 0, inputVars := [], inputVarValues32 := [], inputVarValues64 := []\<rparr>;
          c2 = (if newCalc
                then c1\<lparr>freedVariables := [], outputVariables := [], nVariates := 0,
                        currentSsa := []\<rparr>
                else c1)
      in (Inr (currentId c, newCalc), c2\<lparr>currentState := createInput\<rparr>))"

definition initiateCalculation ::
    "size_t \<Rightarrow> size_t \<Rightarrow> size_t \<Rightarrow> Settings \<Rightarrow> OpenClContext
      \<Rightarrow> (error + size_t \<times> bool) \<times> OpenClContext" where
  "initiateCalculation n ident ver st c =
     (if \<not> 0 < n then (Inl ZeroSize, c)
      else
        let c0 = c\<lparr>settings := st\<rparr> in
        if ident = 0 then
          let cs = calcs c0 @
                [\<lparr>size_n = n, disposed = False, hasKernel = False, version = ver,
                  program = 0, kernel = 0, inputBufferSize = 0, nOutputVars = 0\<rparr>]
          in resetVariableInfo True (c0\<lparr>calcs := cs, currentId := of_nat (length cs)\<rparr>)
        else if \<not> ident \<le> of_nat (length (calcs c0)) then (Inl BadId, c0)
        else
          (case calc_at (calcs c0) ident of
             None \<Rightarrow> (Inl Undefined, c0)
           | Some k \<Rightarrow>
               if size_n k \<noteq> n then (Inl BadId, c0)
               else if disposed k then (Inl BadId, c0)
               else if ver \<noteq> version k then
                 let c1 = c0\<lparr>calcs := calc_upd (calcs c0) ident
                                (k\<lparr>hasKernel := False, version := ver\<rparr>)\<rparr>;
                     c2 = releaseProgram (program k) (releaseKernel (kernel k) c1)
                 in resetVariableInfo True (c2\<lparr>currentId := ident\<rparr>)
               else resetVariableInfo False (c0\<lparr>currentId := ident\<rparr>)))"

subsection \<open>\<^verbatim>\<open>createInputVariable\<close>\<close>

text \<open>
  The offset of the next input: \<open>0\<close> for the first, else the offset of the last input plus
  its length (\<open>1\<close> for a scalar, \<^verbatim>\<open>size_[currentId_ - 1]\<close> for a vector).
\<close>

definition nextOffset :: "OpenClContext \<Rightarrow> size_t option" where
  "nextOffset c =
     (if inputVars c = [] then Some 0
      else if inputVarIsScalar (last (inputVars c))
      then Some (inputVarOffset (last (inputVars c)) + 1)
      else (case calc_at (calcs c) (currentId c) of
              None \<Rightarrow> None
            | Some k \<Rightarrow> Some (inputVarOffset (last (inputVars c)) + size_n k)))"

text \<open>The largest finite \<^verbatim>\<open>float\<close>, and the clamping of a value into the float range.\<close>

definition float_max :: real where
  "float_max = 2 ^ 128 - 2 ^ 104"

definition clampFloat :: "real \<Rightarrow> real" where
  "clampFloat v = max (min v float_max) (- float_max)"

definition pushValues :: "real list \<Rightarrow> OpenClContext \<Rightarrow> OpenClContext" where
  "pushValues vs c =
     (if useDoublePrecision (settings c)
      then c\<lparr>inputVarValues64 := inputVarValues64 c @ vs\<rparr>
      else c\<lparr>inputVarValues32 := inputVarValues32 c @ map clampFloat vs\<rparr>)"

text \<open>The overload \<^verbatim>\<open>createInputVariable(double v)\<close>.\<close>

definition createInputVariable_scalar ::
    "real \<Rightarrow> OpenClContext \<Rightarrow> (error + size_t) \<times> OpenClContext" where
  "createInputVariable_scalar v c =
     (if currentState c \<noteq> createInput then (Inl BadState, c)
      else
        (case nextOffset c of
           None \<Rightarrow> (Inl Undefined, c)
         | Some off \<Rightarrow>
             let c1 = c\<lparr>inputVars := inputVars c @
                          [\<lparr>inputVarOffset = off, inputVarIsScalar = True\<rparr>]\<rparr>;
                 c2 = pushValues [v] c1
             in (Inr (nVars c2), c2\<lparr>nVars := nVars c2 + 1\<rparr>)))"

text \<open>
  The overload \<^verbatim>\<open>createInputVariable(double* v)\<close>; the pointer is the function from an
  index to the value stored there, of which the first \<^verbatim>\<open>size_[currentId_ - 1]\<close> are read.
\<close>

definition createInputVariable_vector ::
    "(nat \<Rightarrow> real) \<Rightarrow> OpenClContext \<Rightarrow> (error + size_t) \<times> OpenClContext" where
  "createInputVariable_vector v c =
     (if currentState c \<noteq> createInput then (Inl BadState, c)
      else
        (case nextOffset c of
           None \<Rightarrow> (Inl Undefined, c)
         | Some off \<Rightarrow>
             (case calc_at (calcs c) (currentId c) of
                None \<Rightarrow> (Inl Undefined, c)
              | Some k \<Rightarrow>
                  let c1 = c\<lparr>inputVars := inputVars c @
                               [\<lparr>inputVarOffset = off, inputVarIsScalar = False\<rparr>]\<rparr>;
                      c2 = pushValues (map v [0..<unat (size_n k)]) c1
                  in (Inr (nVars c2), c2\<lparr>nVars := nVars c2 + 1\<rparr>))))"

subsection \<open>The variate pool\<close>

definition fpSize :: "OpenClContext \<Rightarrow> size_t" where
  "fpSize c = (if useDoublePrecision (settings c) then 8 else 4)"

text \<open>
  The block of \<^verbatim>\<open>updateVariatesPool\<close> under \<^verbatim>\<open>if (variatesPoolSize_ == 0)\<close>: build the
  program, create the three kernels and the state buffer, run the seed initialisation.
\<close>

definition buildVariatesKernels :: "OpenClContext \<Rightarrow> (error + unit) \<times> OpenClContext" where
  "buildVariatesKernels c =
     (let (err, prog, c1) =
            cl_create (CreateProgramWithSource (VariatesSource (useDoublePrecision (settings c)))) c;
          c1 = c1\<lparr>variatesProgram := prog\<rparr> in
      if err \<noteq> 0 then (Inl (DeviceOp err), c1)
      else
        let (err, c2) = cl (BuildProgram prog) c1 in
        if err \<noteq> 0 then (Inl (BuildFailed err), snd (cl (GetProgramBuildInfo prog) c2))
        else
          let (err, k1, c3) = cl_create (CreateKernel prog ''ore_seedInitialization'') c2;
              c3 = c3\<lparr>variatesKernelSeedInit := k1\<rparr> in
          if err \<noteq> 0 then (Inl (DeviceOp err), c3)
          else
            let (err, k2, c4) = cl_create (CreateKernel prog ''ore_twist'') c3;
                c4 = c4\<lparr>variatesKernelTwist := k2\<rparr> in
            if err \<noteq> 0 then (Inl (DeviceOp err), c4)
            else
              let (err, k3, c5) = cl_create (CreateKernel prog ''ore_generate'') c4;
                  c5 = c5\<lparr>variatesKernelGenerate := k3\<rparr> in
              if err \<noteq> 0 then (Inl (DeviceOp err), c5)
              else
                let (err, b, c6) = cl_create (CreateBuffer (8 * 624)) c5;
                    c6 = c6\<lparr>variatesMtStateBuffer := b\<rparr> in
                if err \<noteq> 0 then (Inl (DeviceOp err), c6)
                else
                  let (e0, c7) = cl (SetKernelArgValue k1 0 (rngSeed (settings c))) c6;
                      (e1, c8) = cl (SetKernelArg k1 1 b) c7 in
                  if e0 OR e1 \<noteq> 0 then (Inl (DeviceOp (e0 OR e1)), c8)
                  else
                    let (err, c9) = cl (EnqueueNDRangeKernel k1 1) c8 in
                    if err \<noteq> 0 then (Inl (DeviceOp err), c9) else (Inr (), c9))"

text \<open>One round of the fill loop: twist the state, generate 624 variates at the cursor.\<close>

definition fillStep :: "size_t \<Rightarrow> OpenClContext \<Rightarrow> (error + unit) \<times> OpenClContext" where
  "fillStep currentPoolSize c =
     (let (err, c1) = cl (SetKernelArg (variatesKernelTwist c) 0 (variatesMtStateBuffer c)) c in
      if err \<noteq> 0 then (Inl (DeviceOp err), c1)
      else
        let (err, c2) = cl (EnqueueNDRangeKernel (variatesKernelTwist c) 624) c1 in
        if err \<noteq> 0 then (Inl (DeviceOp err), c2)
        else
          let (e0, c3) = cl (SetKernelArgValue (variatesKernelGenerate c) 0 currentPoolSize) c2;
              (e1, c4) = cl (SetKernelArg (variatesKernelGenerate c) 1 (variatesMtStateBuffer c)) c3;
              (e2, c5) = cl (SetKernelArg (variatesKernelGenerate c) 2 (variatesPool c)) c4 in
          if e0 OR e1 OR e2 \<noteq> 0 then (Inl (DeviceOp (e0 OR e1 OR e2)), c5)
          else
            let (err, c6) = cl (EnqueueNDRangeKernel (variatesKernelGenerate c) 624) c5 in
            if err \<noteq> 0 then (Inl (DeviceOp err), c6) else (Inr (), c6))"

text \<open>
  The loop \<^verbatim>\<open>for (currentPoolSize = variatesPoolSize_; currentPoolSize < demand;
  currentPoolSize += mt_N)\<close>. The cursor is a \<^verbatim>\<open>size_t\<close> and the addition wraps, so the
  loop need not end: not returning is the value \<open>None\<close>.
\<close>

partial_function (option) fillLoop ::
    "size_t \<Rightarrow> bool \<Rightarrow> size_t \<Rightarrow> OpenClContext
      \<Rightarrow> ((error + size_t \<times> bool) \<times> OpenClContext) option" where
  "fillLoop currentPoolSize haveGenerated demand c =
     (if currentPoolSize < demand
      then (case fillStep currentPoolSize c of
              (Inl e, c') \<Rightarrow> Some (Inl e, c')
            | (Inr u, c') \<Rightarrow> fillLoop (currentPoolSize + 624) True demand c')
      else Some (Inr (currentPoolSize, haveGenerated), c))"

declare fillLoop.simps [code]

text \<open>
  The rest of \<^verbatim>\<open>updateVariatesPool\<close> once the pool is found too small. The
  \<^verbatim>\<open>OldBufferReleaser\<close> releases the previous buffer on every way out, when there was
  one (\<open>releaseOld\<close>).
\<close>

definition alignedSize :: "size_t \<Rightarrow> size_t" where
  "alignedSize demand = 624 * (demand div 624 + (if demand mod 624 = 0 then 0 else 1))"

definition growVariatesPool ::
    "size_t \<Rightarrow> OpenClContext \<Rightarrow> ((error + unit) \<times> OpenClContext) option" where
  "growVariatesPool demand c =
     (let oldBuffer = variatesPool c;
          releaseOld = (\<lambda>x. if 0 < variatesPoolSize c then releaseMem oldBuffer x else x);
          (err, buf, c1) = cl_create (CreateBuffer (fpSize c * alignedSize demand)) c;
          c1 = c1\<lparr>variatesPool := buf\<rparr> in
      if err \<noteq> 0 then Some (Inl (DeviceOp err), releaseOld c1)
      else
        let (err, c2) =
              (if 0 < variatesPoolSize c
               then cl (EnqueueCopyBuffer oldBuffer buf (fpSize c * variatesPoolSize c)) c1
               else (0, c1)) in
        if err \<noteq> 0 then Some (Inl (DeviceOp err), releaseOld c2)
        else
          (case fillLoop (variatesPoolSize c) False demand c2 of
             None \<Rightarrow> None
           | Some (Inl e, c3) \<Rightarrow> Some (Inl e, releaseOld c3)
           | Some (Inr (currentPoolSize, haveGenerated), c3) \<Rightarrow>
               let c4 = (if 0 < variatesPoolSize c \<or> haveGenerated
                         then snd (cl WaitForEvents c3) else c3) in
               if currentPoolSize \<noteq> alignedSize demand
               then Some (Inl InternalError, releaseOld c4)
               else Some (Inr (), releaseOld (c4\<lparr>variatesPoolSize := currentPoolSize\<rparr>))))"

definition updateVariatesPool :: "OpenClContext \<Rightarrow> ((error + unit) \<times> OpenClContext) option" where
  "updateVariatesPool c =
     (if \<not> 0 < nVariates c then Some (Inl InternalError, c)
      else
        (case (if variatesPoolSize c = 0 then buildVariatesKernels c else (Inr (), c)) of
           (Inl e, c1) \<Rightarrow> Some (Inl e, c1)
         | (Inr u, c1) \<Rightarrow>
             (case calc_at (calcs c1) (currentId c1) of
                None \<Rightarrow> Some (Inl Undefined, c1)
              | Some k \<Rightarrow>
                  if nVariates c1 * size_n k \<le> variatesPoolSize c1
                  then Some (Inr (),
                         (if variatesPoolSize c1 = 0 then snd (cl WaitForEvents c1) else c1))
                  else growVariatesPool (nVariates c1 * size_n k) c1)))"

text \<open>
  \<^verbatim>\<open>createInputVariates\<close>. The body of the inner loop is
  \<^verbatim>\<open>resultIds[i][j] = nVars_++\<close>; the loops run \<open>j\<close> over the steps and, inside, \<open>i\<close>
  over the dimensions.
\<close>

definition assignId ::
    "nat \<Rightarrow> nat \<Rightarrow> size_t list list \<times> size_t \<Rightarrow> size_t list list \<times> size_t" where
  "assignId j i = (\<lambda>(resultIds, nv). (resultIds[i := (resultIds ! i)[j := nv]], nv + 1))"

definition assignIds :: "size_t \<Rightarrow> size_t \<Rightarrow> size_t \<Rightarrow> size_t list list \<times> size_t" where
  "assignIds dims steps nv =
     fold (\<lambda>j. fold (assignId j) [0..<unat dims]) [0..<unat steps]
       (replicate (unat dims) (replicate (unat steps) 0), nv)"

definition createInputVariates ::
    "size_t \<Rightarrow> size_t \<Rightarrow> OpenClContext
      \<Rightarrow> ((error + size_t list list) \<times> OpenClContext) option" where
  "createInputVariates dims steps c =
     (if \<not> (currentState c = createInput \<or> currentState c = createVariates)
      then Some (Inl BadState, c)
      else if \<not> 0 < currentId c then Some (Inl NoCurrentId, c)
      else
        (case calc_at (calcs c) (currentId c) of
           None \<Rightarrow> Some (Inl Undefined, c)
         | Some k \<Rightarrow>
             if hasKernel k then Some (Inl KernelExists, c)
             else
               let (resultIds, nv) = assignIds dims steps (nVars c);
                   c1 = c\<lparr>currentState := createVariates, nVars := nv,
                          nVariates := nVariates c + dims * steps\<rparr>
               in (case updateVariatesPool c1 of
                     None \<Rightarrow> None
                   | Some (Inl e, c2) \<Rightarrow> Some (Inl e, c2)
                   | Some (Inr u, c2) \<Rightarrow> Some (Inr resultIds, c2))))"

subsection \<open>\<^verbatim>\<open>applyOperation\<close>, \<^verbatim>\<open>freeVariable\<close>, \<^verbatim>\<open>declareOutputVariable\<close>\<close>

text \<open>The name of an argument in the generated code (the loop over \<^verbatim>\<open>args\<close>).\<close>

definition argStrOf :: "OpenClContext \<Rightarrow> CalcRecord \<Rightarrow> size_t \<Rightarrow> string" where
  "argStrOf c k a =
     (if a < of_nat (length (inputVars c))
      then ''input['' @ to_string (unat (inputVarOffset (inputVars c ! unat a))) @ ''U''
             @ (if inputVarIsScalar (inputVars c ! unat a) then '']'' else '' + i]'')
      else if a < of_nat (length (inputVars c)) + nVariates c
      then ''rn['' @ to_string (unat ((a - of_nat (length (inputVars c))) * size_n k))
             @ ''U + i]''
      else ''v'' @ to_string (unat a))"

text \<open>
  \<^verbatim>\<open>argStr[0]\<close> and \<^verbatim>\<open>argStr[1]\<close>: reading an argument that was not passed is an
  access outside the vector.
\<close>

definition arg1 :: "string list \<Rightarrow> (string \<Rightarrow> string) \<Rightarrow> error + string" where
  "arg1 argStr f = (case argStr of a # _ \<Rightarrow> Inr (f a) | _ \<Rightarrow> Inl Undefined)"

definition arg2 :: "string list \<Rightarrow> (string \<Rightarrow> string \<Rightarrow> string) \<Rightarrow> error + string" where
  "arg2 argStr f = (case argStr of a # b # _ \<Rightarrow> Inr (f a b) | _ \<Rightarrow> Inl Undefined)"

text \<open>The \<^verbatim>\<open>switch\<close> over the opcode: what it appends to \<^verbatim>\<open>ssaLine\<close>.\<close>

fun ssaRhs :: "RandomVariableOpCode \<Rightarrow> string list \<Rightarrow> error + string" where
  "ssaRhs OpNone argStr = Inr ''''"
| "ssaRhs OpAdd argStr = arg2 argStr (\<lambda>a b. a @ '' + '' @ b @ '';'')"
| "ssaRhs OpSubtract argStr = arg2 argStr (\<lambda>a b. a @ '' - '' @ b @ '';'')"
| "ssaRhs OpNegative argStr = arg1 argStr (\<lambda>a. ''-'' @ a @ '';'')"
| "ssaRhs OpMult argStr = arg2 argStr (\<lambda>a b. a @ '' * '' @ b @ '';'')"
| "ssaRhs OpDiv argStr = arg2 argStr (\<lambda>a b. a @ '' / '' @ b @ '';'')"
| "ssaRhs OpIndicatorEq argStr = arg2 argStr (\<lambda>a b. ''ore_indicatorEq('' @ a @ '','' @ b @ '');'')"
| "ssaRhs OpIndicatorGt argStr = arg2 argStr (\<lambda>a b. ''ore_indicatorGt('' @ a @ '','' @ b @ '');'')"
| "ssaRhs OpIndicatorGeq argStr = arg2 argStr (\<lambda>a b. ''ore_indicatorGeq('' @ a @ '','' @ b @ '');'')"
| "ssaRhs OpMin argStr = arg2 argStr (\<lambda>a b. ''fmin('' @ a @ '','' @ b @ '');'')"
| "ssaRhs OpMax argStr = arg2 argStr (\<lambda>a b. ''fmax('' @ a @ '','' @ b @ '');'')"
| "ssaRhs OpAbs argStr = arg1 argStr (\<lambda>a. ''fabs('' @ a @ '');'')"
| "ssaRhs OpExp argStr = arg1 argStr (\<lambda>a. ''exp('' @ a @ '');'')"
| "ssaRhs OpSqrt argStr = arg1 argStr (\<lambda>a. ''sqrt('' @ a @ '');'')"
| "ssaRhs OpLog argStr = arg1 argStr (\<lambda>a. ''log('' @ a @ '');'')"
| "ssaRhs OpPow argStr = arg2 argStr (\<lambda>a b. ''pow('' @ a @ '','' @ b @ '');'')"
| "ssaRhs (OpUnlisted k) argStr = Inl UnknownOpcode"

text \<open>The choice of the result id: the last freed variable, else a new one.\<close>

definition allocResultId :: "OpenClContext \<Rightarrow> size_t \<times> bool \<times> OpenClContext" where
  "allocResultId c =
     (if freedVariables c \<noteq> []
      then (last (freedVariables c), False, c\<lparr>freedVariables := butlast (freedVariables c)\<rparr>)
      else (nVars c, True, c\<lparr>nVars := nVars c + 1\<rparr>))"

definition applyOperation ::
    "RandomVariableOpCode \<Rightarrow> size_t list \<Rightarrow> OpenClContext
      \<Rightarrow> (error + size_t) \<times> OpenClContext" where
  "applyOperation randomVariableOpCode args c =
     (if \<not> (currentState c = createInput \<or> currentState c = createVariates
             \<or> currentState c = calc)
      then (Inl BadState, c)
      else
        let c0 = c\<lparr>currentState := calc\<rparr> in
        if \<not> 0 < currentId c0 then (Inl NoCurrentId, c0)
        else
          (case calc_at (calcs c0) (currentId c0) of
             None \<Rightarrow> (Inl Undefined, c0)
           | Some k \<Rightarrow>
               if hasKernel k then (Inl KernelExists, c0)
               else
                 let (resultId, resultIdNeedsDeclaration, c1) = allocResultId c0;
                     argStr = map (argStrOf c1 k) args;
                     ssaLine = (if resultIdNeedsDeclaration then fpTypeStr c1 @ '' '' else '''')
                               @ ''v'' @ to_string (unat resultId) @ '' = ''
                 in (case ssaRhs randomVariableOpCode argStr of
                       Inl e \<Rightarrow> (Inl e, c1)
                     | Inr rhs \<Rightarrow>
                         let c2 = c1\<lparr>currentSsa :=
                                    currentSsa c1 @ ''  '' @ ssaLine @ rhs @ [CHR 0x0A]\<rparr>;
                             c3 = (if debug (settings c2)
                                   then c2\<lparr>debugInfo := (debugInfo c2)
                                          \<lparr>numberOfOperations :=
                                             numberOfOperations (debugInfo c2) + 1 * size_n k\<rparr>\<rparr>
                                   else c2)
                         in (Inr resultId, c3))))"

definition freeVariable :: "size_t \<Rightarrow> OpenClContext \<Rightarrow> (error + unit) \<times> OpenClContext" where
  "freeVariable ident c =
     (if currentState c \<noteq> calc then (Inl BadState, c)
      else if \<not> 0 < currentId c then (Inl NoCurrentId, c)
      else
        (case calc_at (calcs c) (currentId c) of
           None \<Rightarrow> (Inl Undefined, c)
         | Some k \<Rightarrow>
             if hasKernel k then (Inl KernelExists, c)
             else if ident < of_nat (length (inputVars c)) + nVariates c then (Inr (), c)
             else (Inr (), c\<lparr>freedVariables := freedVariables c @ [ident]\<rparr>)))"

definition declareOutputVariable ::
    "size_t \<Rightarrow> OpenClContext \<Rightarrow> (error + unit) \<times> OpenClContext" where
  "declareOutputVariable ident c =
     (if \<not> currentState c \<noteq> idle then (Inl BadState, c)
      else if \<not> 0 < currentId c then (Inl NoCurrentId, c)
      else
        (case calc_at (calcs c) (currentId c) of
           None \<Rightarrow> (Inl Undefined, c)
         | Some k \<Rightarrow>
             if hasKernel k then (Inl KernelExists, c)
             else (Inr (),
                   c\<lparr>outputVariables := outputVariables c @ [ident],
                     calcs := calc_upd (calcs c) (currentId c)
                                (k\<lparr>nOutputVars := nOutputVars k + 1\<rparr>)\<rparr>)))"

subsection \<open>\<^verbatim>\<open>finalizeCalculation\<close>\<close>

definition nl :: string where
  "nl = [CHR 0x0A]"

text \<open>The helper functions that precede every generated kernel.\<close>

definition includeSource :: "OpenClContext \<Rightarrow> string" where
  "includeSource c =
     (let T = fpTypeStr c;
          fpEpsStr = (if useDoublePrecision (settings c) then ''0x1.0p-52'' else ''0x1.0p-23f'');
          fpSuffix = (if useDoublePrecision (settings c) then '''' else ''f'')
      in ''bool ore_closeEnough(const '' @ T @ '' x, const '' @ T @ '' y) {'' @ nl
         @ ''    const '' @ T @ '' tol = 42.0'' @ fpSuffix @ '' * '' @ fpEpsStr @ '';'' @ nl
         @ ''    '' @ T @ '' diff = fabs(x - y);'' @ nl
         @ ''    if (x == 0.0'' @ fpSuffix @ '' || y == 0.0'' @ fpSuffix @ '')'' @ nl
         @ ''        return diff < tol * tol;'' @ nl
         @ ''    return diff <= tol * fabs(x) || diff <= tol * fabs(y);'' @ nl
         @ ''}'' @ nl
         @ nl
         @ T @ '' ore_indicatorEq(const '' @ T @ '' x, const '' @ T @ '' y) ''
         @ ''{ return ore_closeEnough(x, y) ? 1.0'' @ fpSuffix @ '' : 0.0'' @ fpSuffix @ ''; }''
         @ nl @ nl
         @ T @ '' ore_indicatorGt(const '' @ T @ '' x, const '' @ T @ '' y) ''
         @ ''{ return x > y && !ore_closeEnough(x, y); }'' @ nl @ nl
         @ T @ '' ore_indicatorGeq(const '' @ T @ '' x, const '' @ T @ '' y) ''
         @ ''{ return x > y || ore_closeEnough(x, y); }'' @ nl @ nl)"

definition kernelNameOf :: "OpenClContext \<Rightarrow> CalcRecord \<Rightarrow> string" where
  "kernelNameOf c k =
     ''ore_kernel_'' @ to_string (unat (currentId c)) @ ''_'' @ to_string (unat (version k))"

text \<open>\<^verbatim>\<open>boost::join(inputArgs, ",")\<close>.\<close>

fun join_comma :: "string list \<Rightarrow> string" where
  "join_comma [] = ''''"
| "join_comma [x] = x"
| "join_comma (x # y # ys) = x @ '','' @ join_comma (y # ys)"

text \<open>
  The lines that assign the outputs, for the loop indices \<open>is\<close>; \<^verbatim>\<open>outputVariables_[i]\<close>
  is read without a check against the size of the vector.
\<close>

fun outputLines :: "OpenClContext \<Rightarrow> CalcRecord \<Rightarrow> nat list \<Rightarrow> string option" where
  "outputLines c k [] = Some ''''"
| "outputLines c k (i # is) =
     (if \<not> i < length (outputVariables c) then None
      else
        let ov = outputVariables c ! i;
            offset = of_nat i * size_n k;
            out =
              (if ov < of_nat (length (inputVars c))
               then ''input['' @ to_string (unat ov) @ ''U''
                      @ (if inputVarIsScalar (inputVars c ! unat ov) then '']'' else '' + i] '')
               else if ov < of_nat (length (inputVars c)) + nVariates c
               then ''rn['' @ to_string (unat ((ov - of_nat (length (inputVars c))) * size_n k))
                      @ ''U + i]''
               else ''v'' @ to_string (unat ov));
            ssaLine = ''  output['' @ to_string (unat (offset :: size_t)) @ ''UL + i] = '' @ out @ '';''
        in (case outputLines c k is of
              None \<Rightarrow> None
            | Some rest \<Rightarrow> Some (ssaLine @ nl @ rest)))"

definition kernelSource ::
    "OpenClContext \<Rightarrow> CalcRecord \<Rightarrow> size_t \<Rightarrow> size_t \<Rightarrow> string option" where
  "kernelSource c k inBufSize outBufSize =
     (let T = fpTypeStr c;
          inputArgs =
            (if 0 < inBufSize then [''__global '' @ T @ ''* input''] else [])
            @ (if 0 < nVariates c then [''__global '' @ T @ ''* rn''] else [])
            @ (if 0 < outBufSize then [''__global '' @ T @ ''* output''] else [])
      in (case outputLines c k [0..<unat (nOutputVars k)] of
            None \<Rightarrow> None
          | Some outs \<Rightarrow>
              Some (includeSource c @ ''__kernel void '' @ kernelNameOf c k @ ''(''
                    @ join_comma inputArgs @ '') {'' @ nl
                    @ ''unsigned int i = get_global_id(0);'' @ nl
                    @ ''if(i < '' @ to_string (unat (size_n k)) @ ''U) {'' @ nl
                    @ currentSsa c @ outs @ ''  }'' @ nl @ ''}'' @ nl)))"

text \<open>
  The results of the phases of \<^verbatim>\<open>finalizeCalculation\<close> carry, besides the context, the
  buffers that the \<^verbatim>\<open>exitGuard\<close> holds at that moment (\<^verbatim>\<open>guard.mem\<close>).
\<close>

definition inputBufferSizeOf :: "OpenClContext \<Rightarrow> CalcRecord \<Rightarrow> size_t" where
  "inputBufferSizeOf c k =
     (if inputVars c = [] then 0
      else inputVarOffset (last (inputVars c))
           + (if inputVarIsScalar (last (inputVars c)) then 1 else size_n k))"

text \<open>Create the input and the output buffer, each when its size is not zero.\<close>

definition createBuffers ::
    "CalcRecord \<Rightarrow> OpenClContext
      \<Rightarrow> (error + handle \<times> handle) \<times> handle list \<times> OpenClContext" where
  "createBuffers k c =
     (let (err, inputBuffer, mem1, c1) =
            (if 0 < inputBufferSizeOf c k
             then (let (err, b, c') = cl_create (CreateBuffer (fpSize c * inputBufferSizeOf c k)) c
                   in (err, b, [b], c'))
             else (0, 0, [], c)) in
      if err \<noteq> 0 then (Inl (DeviceOp err), mem1, c1)
      else
        let (err, outputBuffer, mem2, c2) =
              (if 0 < nOutputVars k * size_n k
               then (let (err, b, c') =
                           cl_create (CreateBuffer (fpSize c * (nOutputVars k * size_n k))) c1
                     in (err, b, mem1 @ [b], c'))
               else (0, 0, mem1, c1)) in
        if err \<noteq> 0 then (Inl (DeviceOp err), mem2, c2)
        else (Inr (inputBuffer, outputBuffer), mem2, c2))"

text \<open>
  Build the kernel when the calculation has none: the program and the kernel are stored
  in the record as soon as they are created, \<^verbatim>\<open>hasKernel_\<close> is set at the end. With a
  kernel, the size of the input buffer must be the one the kernel was built for.
\<close>

definition buildKernel :: "CalcRecord \<Rightarrow> OpenClContext \<Rightarrow> (error + unit) \<times> OpenClContext" where
  "buildKernel k c =
     (if \<not> hasKernel k then
        (case kernelSource c k (inputBufferSizeOf c k) (nOutputVars k * size_n k) of
           None \<Rightarrow> (Inl Undefined, c)
         | Some src \<Rightarrow>
             let (err, prog, c1) = cl_create (CreateProgramWithSource (SourceText src)) c;
                 k1 = k\<lparr>program := prog\<rparr>;
                 c1 = c1\<lparr>calcs := calc_upd (calcs c1) (currentId c) k1\<rparr> in
             if err \<noteq> 0 then (Inl (DeviceOp err), c1)
             else
               let (err, c2) = cl (BuildProgram prog) c1 in
               if err \<noteq> 0 then (Inl (BuildFailed err), snd (cl (GetProgramBuildInfo prog) c2))
               else
                 let (err, krn, c3) = cl_create (CreateKernel prog (kernelNameOf c k)) c2;
                     k2 = k1\<lparr>kernel := krn\<rparr>;
                     c3 = c3\<lparr>calcs := calc_upd (calcs c3) (currentId c) k2\<rparr> in
                 if err \<noteq> 0 then (Inl (DeviceOp err), c3)
                 else
                   (Inr (),
                    c3\<lparr>calcs := calc_upd (calcs c3) (currentId c)
                         (k2\<lparr>hasKernel := True, inputBufferSize := inputBufferSizeOf c k\<rparr>)\<rparr>))
      else if inputBufferSizeOf c k \<noteq> inputBufferSize k then (Inl InputBufferSizeMismatch, c)
      else (Inr (), c))"

text \<open>\<^verbatim>\<open>clFinish\<close> in debug mode, with the check of its status.\<close>

definition debugFinish :: "OpenClContext \<Rightarrow> (error + unit) \<times> OpenClContext" where
  "debugFinish c =
     (if debug (settings c)
      then (let (err, c1) = cl Finish c
            in if err \<noteq> 0 then (Inl (DeviceOp err), c1) else (Inr (), c1))
      else (Inr (), c))"

text \<open>
  Bind the buffers that are present to the kernel arguments \<open>kidx\<close>, \<open>kidx + 1\<close>, ...; the
  statuses are accumulated with \<^verbatim>\<open>|=\<close>.
\<close>

fun setKernelArgs ::
    "handle \<Rightarrow> nat \<Rightarrow> handle list \<Rightarrow> cl_int \<Rightarrow> OpenClContext \<Rightarrow> cl_int \<times> OpenClContext" where
  "setKernelArgs krn kidx [] err c = (err, c)"
| "setKernelArgs krn kidx (b # bs) err c =
     (let (e, c1) = cl (SetKernelArg krn kidx b) c
      in setKernelArgs krn (kidx + 1) bs (err OR e) c1)"

text \<open>
  Upload the inputs, bind the arguments, enqueue the kernel. The upload reads
  \<open>inputBufferSize\<close> values from the vector of input values of the active precision.
\<close>

definition runKernel ::
    "handle \<Rightarrow> handle \<Rightarrow> OpenClContext \<Rightarrow> (error + unit) \<times> OpenClContext" where
  "runKernel inputBuffer outputBuffer c =
     (case calc_at (calcs c) (currentId c) of
        None \<Rightarrow> (Inl Undefined, c)
      | Some k \<Rightarrow>
          let inSize = inputBufferSizeOf c k;
              values = (if useDoublePrecision (settings c)
                        then inputVarValues64 c else inputVarValues32 c) in
          if 0 < inSize \<and> length values < unat inSize then (Inl Undefined, c)
          else
            let (err, c1) =
                  (if 0 < inSize then cl (EnqueueWriteBuffer inputBuffer (fpSize c * inSize)) c
                   else (0, c)) in
            if err \<noteq> 0 then (Inl (DeviceOp err), c1)
            else
              (case debugFinish c1 of
                 (Inl e, c2) \<Rightarrow> (Inl e, c2)
               | (Inr u, c2) \<Rightarrow>
                   let (err, c3) =
                         setKernelArgs (kernel k) 0
                           ((if 0 < inSize then [inputBuffer] else [])
                            @ (if 0 < nVariates c then [variatesPool c] else [])
                            @ (if 0 < nOutputVars k * size_n k then [outputBuffer] else []))
                           0 c2 in
                   if err \<noteq> 0 then (Inl (DeviceOp err), c3)
                   else
                     let c4 = (if debug (settings c) then snd (cl Finish c3) else c3);
                         (err, c5) = cl (EnqueueNDRangeKernel (kernel k) (size_n k)) c4 in
                     if err \<noteq> 0 then (Inl (DeviceOp err), c5)
                     else debugFinish c5))"

text \<open>One read-back for each output vector, stopping at the first that fails.\<close>

fun readOutputs ::
    "handle \<Rightarrow> size_t \<Rightarrow> size_t \<Rightarrow> nat list \<Rightarrow> OpenClContext
      \<Rightarrow> (error + unit) \<times> OpenClContext" where
  "readOutputs outputBuffer fp n [] c = (Inr (), c)"
| "readOutputs outputBuffer fp n (i # is) c =
     (let (err, c1) = cl (EnqueueReadBuffer outputBuffer (fp * of_nat i * n) (fp * n)) c
      in if err \<noteq> 0 then (Inl (DeviceOp err), c1)
         else readOutputs outputBuffer fp n is c1)"

definition copyResults ::
    "handle \<Rightarrow> nat \<Rightarrow> OpenClContext \<Rightarrow> (error + unit) \<times> OpenClContext" where
  "copyResults outputBuffer nOutput c =
     (case calc_at (calcs c) (currentId c) of
        None \<Rightarrow> (Inl Undefined, c)
      | Some k \<Rightarrow>
          (case (if 0 < nOutputVars k * size_n k
                 then (case readOutputs outputBuffer (fpSize c) (size_n k) [0..<nOutput] c of
                         (Inl e, c1) \<Rightarrow> (Inl e, c1)
                       | (Inr u, c1) \<Rightarrow>
                           let (err, c2) = cl WaitForEvents c1
                           in if err \<noteq> 0 then (Inl (DeviceOp err), c2) else (Inr (), c2))
                 else (Inr (), c)) of
             (Inl e, c3) \<Rightarrow> (Inl e, c3)
           | (Inr u, c3) \<Rightarrow> debugFinish c3))"

text \<open>
  The body of \<^verbatim>\<open>finalizeCalculation\<close> after the construction of the guard; \<open>output\<close> is
  the vector of the pointers to the result vectors.
\<close>

definition finalizeBody ::
    "nat list \<Rightarrow> OpenClContext \<Rightarrow> (error + unit) \<times> handle list \<times> OpenClContext" where
  "finalizeBody output c =
     (if \<not> 0 < currentId c then (Inl NoCurrentId, [], c)
      else
        (case calc_at (calcs c) (currentId c) of
           None \<Rightarrow> (Inl Undefined, [], c)
         | Some k \<Rightarrow>
             if (of_nat (length output) :: size_t) \<noteq> nOutputVars k then (Inl OutputArity, [], c)
             else if \<not> (\<not> useDoublePrecision (settings c) \<or> supportsDoublePrecision c)
             then (Inl CapabilityMismatch, [], c)
             else
               (case createBuffers k c of
                  (Inl e, mem, c1) \<Rightarrow> (Inl e, mem, c1)
                | (Inr (inputBuffer, outputBuffer), mem, c1) \<Rightarrow>
                    (case buildKernel k c1 of
                       (Inl e, c2) \<Rightarrow> (Inl e, mem, c2)
                     | (Inr u, c2) \<Rightarrow>
                         (case runKernel inputBuffer outputBuffer c2 of
                            (Inl e, c3) \<Rightarrow> (Inl e, mem, c3)
                          | (Inr u, c3) \<Rightarrow>
                              (case copyResults outputBuffer (length output) c3 of
                                 (r, c4) \<Rightarrow> (r, mem, c4)))))))"

text \<open>
  The destructor of the \<^verbatim>\<open>exitGuard\<close>, which runs on every way out of the function: it
  sets the state to \<open>idle\<close> and releases the buffers.
\<close>

definition exitGuard :: "handle list \<Rightarrow> OpenClContext \<Rightarrow> OpenClContext" where
  "exitGuard mem c = fold (\<lambda>m x. snd (cl (ReleaseMemObject m) x)) mem (c\<lparr>currentState := idle\<rparr>)"

definition finalizeCalculation ::
    "nat list \<Rightarrow> OpenClContext \<Rightarrow> (error + unit) \<times> OpenClContext" where
  "finalizeCalculation output c =
     (case finalizeBody output c of (r, mem, c') \<Rightarrow> (r, exitGuard mem c'))"

subsection \<open>A context as the constructor leaves it\<close>

definition newContext :: "bool \<Rightarrow> (nat \<Rightarrow> cl_int) \<Rightarrow> (nat \<Rightarrow> 64 word) \<Rightarrow> OpenClContext" where
  "newContext dp answers results =
     \<lparr>healthy = True, initialized = False, context_h = 0, queue_h = 0, deviceInfo = [],
      supportsDoublePrecision = dp, debugInfo = \<lparr>numberOfOperations = 0\<rparr>, calcs = [],
      variatesPoolSize = 0, variatesPool = 0, variatesMtStateBuffer = 0, variatesProgram = 0,
      variatesKernelSeedInit = 0, variatesKernelTwist = 0, variatesKernelGenerate = 0,
      currentId = 0, currentState = idle, nVars = 0, nVariates = 0,
      settings = \<lparr>useDoublePrecision = False, rngSeed = 42, debug = False\<rparr>,
      inputVars = [], inputVarValues32 = [], inputVarValues64 = [],
      freedVariables = [], outputVariables = [], currentSsa = [],
      cl_answers = answers, cl_results = results, cl_log = []\<rparr>"

section \<open>The specification's words\<close>

text \<open>
  The definitions of this section follow the text of the specification, not the code; the
  theorems compare them with the code.
\<close>

text \<open>The opcodes of the table of section 4.4: every opcode but an unlisted one.\<close>

definition supported :: "RandomVariableOpCode \<Rightarrow> bool" where
  "supported opc = (case opc of OpUnlisted j \<Rightarrow> False | _ \<Rightarrow> True)"

text \<open>How many arguments the right-hand side of an opcode mentions.\<close>

fun spec_arity :: "RandomVariableOpCode \<Rightarrow> nat" where
  "spec_arity OpNone = 0"
| "spec_arity OpNegative = 1"
| "spec_arity OpAbs = 1"
| "spec_arity OpExp = 1"
| "spec_arity OpSqrt = 1"
| "spec_arity OpLog = 1"
| "spec_arity (OpUnlisted j) = 0"
| "spec_arity opc = 2"

text \<open>The right-hand side of the table, for the argument texts \<open>a\<close> and \<open>b\<close>.\<close>

fun opcode_table :: "RandomVariableOpCode \<Rightarrow> string \<Rightarrow> string \<Rightarrow> string" where
  "opcode_table OpAdd a b = a @ '' + '' @ b"
| "opcode_table OpSubtract a b = a @ '' - '' @ b"
| "opcode_table OpMult a b = a @ '' * '' @ b"
| "opcode_table OpDiv a b = a @ '' / '' @ b"
| "opcode_table OpNegative a b = ''-'' @ a"
| "opcode_table OpIndicatorEq a b = ''ore_indicatorEq('' @ a @ '','' @ b @ '')''"
| "opcode_table OpIndicatorGt a b = ''ore_indicatorGt('' @ a @ '','' @ b @ '')''"
| "opcode_table OpIndicatorGeq a b = ''ore_indicatorGeq('' @ a @ '','' @ b @ '')''"
| "opcode_table OpMin a b = ''fmin('' @ a @ '','' @ b @ '')''"
| "opcode_table OpMax a b = ''fmax('' @ a @ '','' @ b @ '')''"
| "opcode_table OpAbs a b = ''fabs('' @ a @ '')''"
| "opcode_table OpExp a b = ''exp('' @ a @ '')''"
| "opcode_table OpSqrt a b = ''sqrt('' @ a @ '')''"
| "opcode_table OpLog a b = ''log('' @ a @ '')''"
| "opcode_table OpPow a b = ''pow('' @ a @ '','' @ b @ '')''"
| "opcode_table OpNone a b = ''''"
| "opcode_table (OpUnlisted j) a b = ''''"


text \<open>
  The invariant of the input offsets for batch size \<open>n\<close>: the first offset is \<open>0\<close>, and
  each further offset is the previous one plus \<open>1\<close> after a scalar and plus \<open>n\<close> after a
  vector.
\<close>

definition offsets_ok :: "size_t \<Rightarrow> InputVar list \<Rightarrow> bool" where
  "offsets_ok n xs =
     ((xs = [] \<or> inputVarOffset (xs ! 0) = 0)
      \<and> (\<forall>j \<in> {0..<length xs - 1}.
            inputVarOffset (xs ! Suc j)
              = inputVarOffset (xs ! j) + (if inputVarIsScalar (xs ! j) then 1 else n)))"

text \<open>A sequence of calls of the two overloads of \<^verbatim>\<open>createInputVariable\<close>.\<close>

datatype input_call = ScalarInput real | VectorInput "nat \<Rightarrow> real"

fun is_scalar_call :: "input_call \<Rightarrow> bool" where
  "is_scalar_call (ScalarInput v) = True"
| "is_scalar_call (VectorInput v) = False"

fun createInputCall :: "input_call \<Rightarrow> OpenClContext \<Rightarrow> (error + size_t) \<times> OpenClContext" where
  "createInputCall (ScalarInput v) c = createInputVariable_scalar v c"
| "createInputCall (VectorInput v) c = createInputVariable_vector v c"

definition createInputCalls :: "input_call list \<Rightarrow> OpenClContext \<Rightarrow> OpenClContext" where
  "createInputCalls calls c = fold (\<lambda>x s. snd (createInputCall x s)) calls c"

text \<open>The next multiple of 624 at or above a number.\<close>

definition round_up_624 :: "nat \<Rightarrow> nat" where
  "round_up_624 d = 624 * ((d + 623) div 624)"

text \<open>
  Two contexts that differ at most in the members of the variate pool and in the log of
  the device calls.
\<close>

definition pool_frame :: "OpenClContext \<Rightarrow> OpenClContext \<Rightarrow> bool" where
  "pool_frame c c' =
     (healthy c' = healthy c \<and> initialized c' = initialized c \<and> context_h c' = context_h c
      \<and> queue_h c' = queue_h c \<and> deviceInfo c' = deviceInfo c
      \<and> supportsDoublePrecision c' = supportsDoublePrecision c \<and> debugInfo c' = debugInfo c
      \<and> calcs c' = calcs c \<and> currentId c' = currentId c \<and> currentState c' = currentState c
      \<and> nVars c' = nVars c \<and> nVariates c' = nVariates c \<and> settings c' = settings c
      \<and> inputVars c' = inputVars c \<and> inputVarValues32 c' = inputVarValues32 c
      \<and> inputVarValues64 c' = inputVarValues64 c \<and> freedVariables c' = freedVariables c
      \<and> outputVariables c' = outputVariables c \<and> currentSsa c' = currentSsa c
      \<and> cl_answers c' = cl_answers c \<and> cl_results c' = cl_results c)"

section \<open>Two runs\<close>

text \<open>
  A device whose every call succeeds, and the first scenario of the specification: batch
  size 4, the scalar input \<open>a = 3\<close>, the vector input \<open>b = [1, 2, 3, 4]\<close>, the operations
  \<open>t = a * b\<close> and \<open>y = t + a\<close>, the output \<open>y\<close>; then a second evaluation of the same
  calculation.
\<close>

definition device_ok :: "nat \<Rightarrow> cl_int" where
  "device_ok j = 0"

definition settings0 :: Settings where
  "settings0 = \<lparr>useDoublePrecision = False, rngSeed = 42, debug = False\<rparr>"

definition scenario_new :: OpenClContext where
  "scenario_new = newContext True device_ok (\<lambda>j. 8)"

definition scenario_initiated :: OpenClContext where
  "scenario_initiated = snd (initiateCalculation 4 0 0 settings0 scenario_new)"

definition scenario_inputs :: OpenClContext where
  "scenario_inputs =
     snd (createInputVariable_vector (\<lambda>i. of_nat i + 1)
            (snd (createInputVariable_scalar 3 scenario_initiated)))"

definition scenario_ops :: OpenClContext where
  "scenario_ops =
     snd (applyOperation OpAdd [2, 0] (snd (applyOperation OpMult [0, 1] scenario_inputs)))"

definition scenario_declared :: OpenClContext where
  "scenario_declared = snd (declareOutputVariable 3 scenario_ops)"

definition scenario_finalized :: OpenClContext where
  "scenario_finalized = snd (finalizeCalculation [0] scenario_declared)"

definition scenario_repeat :: OpenClContext where
  "scenario_repeat = snd (initiateCalculation 4 1 0 settings0 scenario_finalized)"

text \<open>
  A run with variates: batch size 4, \<open>2 \<times> 3\<close> variates, the operations \<open>v6 = v0 + v1\<close> and
  \<open>v7 = -v6\<close>, \<open>v6\<close> freed, the output \<open>v7\<close>; then a second evaluation of the same
  calculation.
\<close>

definition variates_created :: OpenClContext where
  "variates_created = snd (the (createInputVariates 2 3 scenario_initiated))"

definition variates_ops :: OpenClContext where
  "variates_ops =
     snd (declareOutputVariable 7 (snd (freeVariable 6
       (snd (applyOperation OpNegative [6] (snd (applyOperation OpAdd [0, 1] variates_created)))))))"

definition variates_finalized :: OpenClContext where
  "variates_finalized = snd (finalizeCalculation [0] variates_ops)"

definition variates_repeat :: OpenClContext where
  "variates_repeat = snd (initiateCalculation 4 1 0 settings0 variates_finalized)"

text \<open>
  Contexts as \<^verbatim>\<open>createInputVariates\<close> hands them to \<^verbatim>\<open>updateVariatesPool\<close>: the first
  request of this run (an empty pool, 6 variates), a later request that the pool covers
  (7 variates), and one that it does not cover (206 variates).
\<close>

definition variates_requested :: OpenClContext where
  "variates_requested = scenario_initiated\<lparr>currentState := createVariates, nVars := 6, nVariates := 6\<rparr>"

definition variates_covered :: OpenClContext where
  "variates_covered = variates_created\<lparr>nVars := 7, nVariates := 7\<rparr>"

definition variates_growing :: OpenClContext where
  "variates_growing = variates_created\<lparr>nVars := 206, nVariates := 206\<rparr>"

text \<open>
  A calculation of batch size \<open>2\<^sup>6\<^sup>2\<close> on a new context, and the context after
  \<^verbatim>\<open>createInputVariates(8, 1)\<close> on it: eight variates of \<open>2\<^sup>6\<^sup>2\<close> samples each. Between
  the two, the context as \<^verbatim>\<open>createInputVariates\<close> hands it to \<^verbatim>\<open>updateVariatesPool\<close>.
\<close>

definition wide_initiated :: OpenClContext where
  "wide_initiated = snd (initiateCalculation (2 ^ 62) 0 0 settings0 scenario_new)"

definition wide_requested :: OpenClContext where
  "wide_requested = wide_initiated\<lparr>currentState := createVariates, nVars := 8, nVariates := 8\<rparr>"

definition wide_variates :: OpenClContext where
  "wide_variates = snd (the (createInputVariates 8 1 wide_initiated))"



text \<open>A device that refuses the call number \<open>j\<close> and no other.\<close>

definition fail_at :: "nat \<Rightarrow> nat \<Rightarrow> cl_int" where
  "fail_at j i = (if i = j then - 5 else 0)"

section \<open>Evaluating the two runs\<close>

lemma calc_at_simps [simp]:
  "calc_at [] i = None"
  "calc_at [k] 1 = Some k"
  by (simp_all add: calc_at_def)

lemma scenario_initiated_eq:
  "scenario_initiated =
     \<lparr>healthy = True, initialized = False, context_h = 0, queue_h = 0, deviceInfo = [],
      supportsDoublePrecision = True, debugInfo = \<lparr>numberOfOperations = 0\<rparr>,
      calcs = [\<lparr>size_n = 4, disposed = False, hasKernel = False, version = 0,
                program = 0, kernel = 0, inputBufferSize = 0, nOutputVars = 0\<rparr>],
      variatesPoolSize = 0, variatesPool = 0, variatesMtStateBuffer = 0, variatesProgram = 0,
      variatesKernelSeedInit = 0, variatesKernelTwist = 0, variatesKernelGenerate = 0,
      currentId = 1, currentState = createInput, nVars = 0, nVariates = 0,
      settings = settings0,
      inputVars = [], inputVarValues32 = [], inputVarValues64 = [],
      freedVariables = [], outputVariables = [], currentSsa = [],
      cl_answers = device_ok, cl_results = (\<lambda>j. 8), cl_log = []\<rparr>"
  by (simp add: scenario_initiated_def scenario_new_def newContext_def initiateCalculation_def
      resetVariableInfo_def Let_def)

lemma clamp_small: "\<bar>v\<bar> \<le> 1000 \<Longrightarrow> clampFloat v = v"
  by (auto simp add: clampFloat_def float_max_def min_def max_def)

lemma scenario_inputs_eq:
  "scenario_inputs =
     \<lparr>healthy = True, initialized = False, context_h = 0, queue_h = 0, deviceInfo = [],
      supportsDoublePrecision = True, debugInfo = \<lparr>numberOfOperations = 0\<rparr>,
      calcs = [\<lparr>size_n = 4, disposed = False, hasKernel = False, version = 0,
                program = 0, kernel = 0, inputBufferSize = 0, nOutputVars = 0\<rparr>],
      variatesPoolSize = 0, variatesPool = 0, variatesMtStateBuffer = 0, variatesProgram = 0,
      variatesKernelSeedInit = 0, variatesKernelTwist = 0, variatesKernelGenerate = 0,
      currentId = 1, currentState = createInput, nVars = 2, nVariates = 0,
      settings = settings0,
      inputVars = [\<lparr>inputVarOffset = 0, inputVarIsScalar = True\<rparr>,
                   \<lparr>inputVarOffset = 1, inputVarIsScalar = False\<rparr>],
      inputVarValues32 = [3, 1, 2, 3, 4], inputVarValues64 = [],
      freedVariables = [], outputVariables = [], currentSsa = [],
      cl_answers = device_ok, cl_results = (\<lambda>j. 8), cl_log = []\<rparr>"
  by (simp add: scenario_inputs_def scenario_initiated_eq createInputVariable_scalar_def
      createInputVariable_vector_def nextOffset_def pushValues_def settings0_def Let_def
      clamp_small upt_rec)


lemma scenario_ops_eq:
  "scenario_ops =
     \<lparr>healthy = True, initialized = False, context_h = 0, queue_h = 0, deviceInfo = [],
      supportsDoublePrecision = True, debugInfo = \<lparr>numberOfOperations = 0\<rparr>,
      calcs = [\<lparr>size_n = 4, disposed = False, hasKernel = False, version = 0,
                program = 0, kernel = 0, inputBufferSize = 0, nOutputVars = 0\<rparr>],
      variatesPoolSize = 0, variatesPool = 0, variatesMtStateBuffer = 0, variatesProgram = 0,
      variatesKernelSeedInit = 0, variatesKernelTwist = 0, variatesKernelGenerate = 0,
      currentId = 1, currentState = calc, nVars = 4, nVariates = 0,
      settings = settings0,
      inputVars = [\<lparr>inputVarOffset = 0, inputVarIsScalar = True\<rparr>,
                   \<lparr>inputVarOffset = 1, inputVarIsScalar = False\<rparr>],
      inputVarValues32 = [3, 1, 2, 3, 4], inputVarValues64 = [],
      freedVariables = [], outputVariables = [],
      currentSsa = ''  float v2 = input[0U] * input[1U + i];'' @ [CHR 0x0A]
                   @ ''  float v3 = v2 + input[0U];'' @ [CHR 0x0A],
      cl_answers = device_ok, cl_results = (\<lambda>j. 8), cl_log = []\<rparr>"
  by (simp add: scenario_ops_def scenario_inputs_eq applyOperation_def allocResultId_def
      argStrOf_def arg2_def fpTypeStr_def settings0_def Let_def to_string.simps)

lemma scenario_declared_eq:
  "scenario_declared =
     \<lparr>healthy = True, initialized = False, context_h = 0, queue_h = 0, deviceInfo = [],
      supportsDoublePrecision = True, debugInfo = \<lparr>numberOfOperations = 0\<rparr>,
      calcs = [\<lparr>size_n = 4, disposed = False, hasKernel = False, version = 0,
                program = 0, kernel = 0, inputBufferSize = 0, nOutputVars = 1\<rparr>],
      variatesPoolSize = 0, variatesPool = 0, variatesMtStateBuffer = 0, variatesProgram = 0,
      variatesKernelSeedInit = 0, variatesKernelTwist = 0, variatesKernelGenerate = 0,
      currentId = 1, currentState = calc, nVars = 4, nVariates = 0,
      settings = settings0,
      inputVars = [\<lparr>inputVarOffset = 0, inputVarIsScalar = True\<rparr>,
                   \<lparr>inputVarOffset = 1, inputVarIsScalar = False\<rparr>],
      inputVarValues32 = [3, 1, 2, 3, 4], inputVarValues64 = [],
      freedVariables = [], outputVariables = [3],
      currentSsa = ''  float v2 = input[0U] * input[1U + i];'' @ [CHR 0x0A]
                   @ ''  float v3 = v2 + input[0U];'' @ [CHR 0x0A],
      cl_answers = device_ok, cl_results = (\<lambda>j. 8), cl_log = []\<rparr>"
  by (simp add: scenario_declared_def scenario_ops_eq declareOutputVariable_def calc_upd_def)


lemma cl_device_ok [simp]:
  "cl_answers c = device_ok \<Longrightarrow> cl call c = (0, c\<lparr>cl_log := cl_log c @ [call]\<rparr>)"
  "cl_answers c = device_ok \<Longrightarrow>
     cl_create call c = (0, Suc (length (cl_log c)), c\<lparr>cl_log := cl_log c @ [call]\<rparr>)"
  by (simp_all add: cl_def cl_create_def device_ok_def)

lemma scenario_finalize_result:
  "fst (finalizeCalculation [0] scenario_declared) = Inr ()"
  by (simp add: scenario_declared_eq finalizeCalculation_def finalizeBody_def createBuffers_def
      buildKernel_def runKernel_def copyResults_def debugFinish_def exitGuard_def kernelSource_def
      inputBufferSizeOf_def fpSize_def calc_upd_def settings0_def Let_def upt_rec
      split: prod.splits)

lemma scenario_finalized_eq:
  "scenario_finalized\<lparr>cl_log := []\<rparr> =
     \<lparr>healthy = True, initialized = False, context_h = 0, queue_h = 0, deviceInfo = [],
      supportsDoublePrecision = True, debugInfo = \<lparr>numberOfOperations = 0\<rparr>,
      calcs = [\<lparr>size_n = 4, disposed = False, hasKernel = True, version = 0,
                program = 3, kernel = 5, inputBufferSize = 5, nOutputVars = 1\<rparr>],
      variatesPoolSize = 0, variatesPool = 0, variatesMtStateBuffer = 0, variatesProgram = 0,
      variatesKernelSeedInit = 0, variatesKernelTwist = 0, variatesKernelGenerate = 0,
      currentId = 1, currentState = idle, nVars = 4, nVariates = 0,
      settings = settings0,
      inputVars = [\<lparr>inputVarOffset = 0, inputVarIsScalar = True\<rparr>,
                   \<lparr>inputVarOffset = 1, inputVarIsScalar = False\<rparr>],
      inputVarValues32 = [3, 1, 2, 3, 4], inputVarValues64 = [],
      freedVariables = [], outputVariables = [3],
      currentSsa = ''  float v2 = input[0U] * input[1U + i];'' @ [CHR 0x0A]
                   @ ''  float v3 = v2 + input[0U];'' @ [CHR 0x0A],
      cl_answers = device_ok, cl_results = (\<lambda>j. 8), cl_log = []\<rparr>"
  by (simp add: scenario_finalized_def scenario_declared_eq finalizeCalculation_def
      finalizeBody_def createBuffers_def
      buildKernel_def runKernel_def copyResults_def debugFinish_def exitGuard_def kernelSource_def
      inputBufferSizeOf_def fpSize_def calc_upd_def settings0_def Let_def upt_rec
      split: prod.splits)


lemma scenario_finalized_fields:
  "calcs scenario_finalized =
     [\<lparr>size_n = 4, disposed = False, hasKernel = True, version = 0,
       program = 3, kernel = 5, inputBufferSize = 5, nOutputVars = 1\<rparr>]"
  "currentState scenario_finalized = idle"
  "outputVariables scenario_finalized = [3]"
  "freedVariables scenario_finalized = []"
  "nVariates scenario_finalized = 0"
  "currentSsa scenario_finalized =
     ''  float v2 = input[0U] * input[1U + i];'' @ [CHR 0x0A]
     @ ''  float v3 = v2 + input[0U];'' @ [CHR 0x0A]"
  using arg_cong [OF scenario_finalized_eq, of calcs]
    arg_cong [OF scenario_finalized_eq, of currentState]
    arg_cong [OF scenario_finalized_eq, of outputVariables]
    arg_cong [OF scenario_finalized_eq, of freedVariables]
    arg_cong [OF scenario_finalized_eq, of nVariates]
    arg_cong [OF scenario_finalized_eq, of currentSsa]
  by simp_all

lemma scenario_repeat_result:
  "fst (initiateCalculation 4 1 0 settings0 scenario_finalized) = Inr (1, False)"
  by (simp add: initiateCalculation_def resetVariableInfo_def scenario_finalized_fields Let_def)

lemma scenario_repeat_fields:
  "calcs scenario_repeat =
     [\<lparr>size_n = 4, disposed = False, hasKernel = True, version = 0,
       program = 3, kernel = 5, inputBufferSize = 5, nOutputVars = 1\<rparr>]"
  "currentId scenario_repeat = 1"
  "currentState scenario_repeat = createInput"
  "outputVariables scenario_repeat = [3]"
  "freedVariables scenario_repeat = []"
  "nVariates scenario_repeat = 0"
  "inputVars scenario_repeat = []"
  "currentSsa scenario_repeat =
     ''  float v2 = input[0U] * input[1U + i];'' @ [CHR 0x0A]
     @ ''  float v3 = v2 + input[0U];'' @ [CHR 0x0A]"
  by (simp_all add: scenario_repeat_def initiateCalculation_def resetVariableInfo_def
      scenario_finalized_fields Let_def)

lemma scenario_ops_fields:
  "currentState scenario_ops = calc"
  "currentId scenario_ops = 1"
  "calcs scenario_ops = [\<lparr>size_n = 4, disposed = False, hasKernel = False, version = 0,
                            program = 0, kernel = 0, inputBufferSize = 0, nOutputVars = 0\<rparr>]"
  "outputVariables scenario_ops = []"
  by (simp_all add: scenario_ops_eq)

lemma scenario_declared_fields:
  "calcs scenario_declared = [\<lparr>size_n = 4, disposed = False, hasKernel = False, version = 0,
                            program = 0, kernel = 0, inputBufferSize = 0, nOutputVars = 1\<rparr>]"
  by (simp add: scenario_declared_eq)

lemma scenario_initiated_run:
  "initiateCalculation 4 0 0 settings0 scenario_new = (Inr (1, True), scenario_initiated)"
  by (simp add: scenario_initiated_def scenario_new_def newContext_def initiateCalculation_def
      resetVariableInfo_def Let_def)

lemma variates_repeat_run:
  "initiateCalculation 4 1 0 settings0 variates_finalized = (Inr (1, False), variates_repeat)"
proof -
  have "fst (initiateCalculation 4 1 0 settings0 variates_finalized) = Inr (1, False)"
    by code_simp
  then show ?thesis
    by (simp add: variates_repeat_def prod_eq_iff)
qed

lemma variates_repeat_fields:
  "freedVariables variates_repeat = [6]"
  "outputVariables variates_repeat = [7]"
  "nVariates variates_repeat = 6"
  by code_simp+

lemma variates_finalized_fields:
  "freedVariables variates_finalized = [6]"
  "outputVariables variates_finalized = [7]"
  "nVariates variates_finalized = 6"
  "currentState variates_finalized = idle"
  by code_simp+


lemma finalize_outcomes:
  "currentState scenario_declared = calc"
  "fst (finalizeCalculation [0] scenario_declared) = Inr ()"
  "fst (finalizeCalculation [] scenario_declared) = Inl OutputArity"
  "fst (finalizeCalculation [0]
          (scenario_declared\<lparr>settings := settings0\<lparr>useDoublePrecision := True\<rparr>,
                             supportsDoublePrecision := False\<rparr>)) = Inl CapabilityMismatch"
  "fst (finalizeCalculation [0] (scenario_declared\<lparr>cl_answers := fail_at 3\<rparr>))
     = Inl (BuildFailed (- 5))"
  "fst (finalizeCalculation [0] (scenario_declared\<lparr>cl_answers := fail_at 8\<rparr>))
     = Inl (DeviceOp (- 5))"
  "fst (finalizeCalculation [0] (scenario_declared\<lparr>cl_answers := fail_at 9\<rparr>))
     = Inl (DeviceOp (- 5))"
  by code_simp+

lemma unat_minus_one_64: "unat (- 1 :: 64 word) = 18446744073709551615"
  by (simp add: unsigned_minus_1_eq_mask mask_eq_exp_minus_1)

lemma calc_at_zero_one: "calc_at [k] 0 = None" "calc_at [k] 2 = None"
  by (simp_all add: calc_at_def unat_minus_one_64)

lemma calc_at_last:
  assumes "length cs < 2 ^ 64 - 1"
  shows "calc_at (cs @ [k]) (1 + of_nat (length cs)) = Some k"
proof -
  have "unat (of_nat (length cs) :: 64 word) = length cs"
    using assms by (simp add: unat_of_nat)
  then show ?thesis by (simp add: calc_at_def)
qed

lemma calc_at_upd:
  "calc_at cs i = Some k \<Longrightarrow> calc_at (calc_upd cs i k') i = Some k'"
  by (simp add: calc_at_def calc_upd_def split: if_splits)
lemma scenario_initiated_fields:
  "currentState scenario_initiated = createInput"
  "currentId scenario_initiated = 1"
  "calcs scenario_initiated = [\<lparr>size_n = 4, disposed = False, hasKernel = False, version = 0,
                            program = 0, kernel = 0, inputBufferSize = 0, nOutputVars = 0\<rparr>]"
  "nVars scenario_initiated = 0"
  "nVariates scenario_initiated = 0"
  "variatesPoolSize scenario_initiated = 0"
  by (simp_all add: scenario_initiated_eq)

lemma variates_created_fields:
  "currentState variates_created = createVariates"
  "currentId variates_created = 1"
  "calcs variates_created = [\<lparr>size_n = 4, disposed = False, hasKernel = False, version = 0,
                            program = 0, kernel = 0, inputBufferSize = 0, nOutputVars = 0\<rparr>]"
  "nVariates variates_created = 6"
  "variatesPoolSize variates_created = 624"
  "length (cl_log variates_created) = 17"
  by code_simp+

lemma pool_runs:
  "case updateVariatesPool variates_requested of Some (Inr u, c') \<Rightarrow> True | _ \<Rightarrow> False"
  "case updateVariatesPool variates_covered of Some (Inr u, c') \<Rightarrow> True | _ \<Rightarrow> False"
  "case updateVariatesPool variates_growing of Some (Inr u, c') \<Rightarrow> True | _ \<Rightarrow> False"
  by code_simp+

lemma pool_run_fields:
  "variatesPoolSize variates_requested = 0"
  "variatesPoolSize variates_covered = 624"
  "variatesPoolSize variates_growing = 624"
  "calc_at (calcs variates_requested) (currentId variates_requested)
     = Some \<lparr>size_n = 4, disposed = False, hasKernel = False, version = 0,
              program = 0, kernel = 0, inputBufferSize = 0, nOutputVars = 0\<rparr>"
  "calc_at (calcs variates_covered) (currentId variates_covered)
     = Some \<lparr>size_n = 4, disposed = False, hasKernel = False, version = 0,
              program = 0, kernel = 0, inputBufferSize = 0, nOutputVars = 0\<rparr>"
  "calc_at (calcs variates_growing) (currentId variates_growing)
     = Some \<lparr>size_n = 4, disposed = False, hasKernel = False, version = 0,
              program = 0, kernel = 0, inputBufferSize = 0, nOutputVars = 0\<rparr>"
  "nVariates variates_requested = 6"
  "nVariates variates_covered = 7"
  "nVariates variates_growing = 206"
  by (simp_all add: variates_requested_def variates_covered_def variates_growing_def
      variates_created_fields scenario_initiated_eq)

section \<open>\<^verbatim>\<open>applyOperation\<close>\<close>


lemma ssaRhs_table:
  assumes "supported opc" and "spec_arity opc \<le> length xs"
  shows "ssaRhs opc xs =
           Inr (if opc = OpNone then '''' else opcode_table opc (xs ! 0) (xs ! 1) @ '';'')"
proof (cases xs)
  case Nil
  with assms show ?thesis by (cases opc) (simp_all add: supported_def)
next
  case (Cons a ys)
  show ?thesis
  proof (cases ys)
    case Nil
    with Cons assms show ?thesis
      by (cases opc) (simp_all add: supported_def arg1_def)
  next
    case (Cons b zs)
    with \<open>xs = a # ys\<close> assms show ?thesis
      by (cases opc) (simp_all add: supported_def arg1_def arg2_def)
  qed
qed





section \<open>\<^verbatim>\<open>finalizeCalculation\<close>\<close>

lemma exitGuard_state: "currentState (exitGuard mem c) = idle"
proof -
  have "currentState (fold (\<lambda>m x. snd (cl (ReleaseMemObject m) x)) mem x) = currentState x" for x
    by (induction mem arbitrary: x) (simp_all add: cl_def)
  then show ?thesis by (simp add: exitGuard_def)
qed

text \<open>
  C3. Every call of \<^verbatim>\<open>finalizeCalculation\<close> leaves the state \<open>idle\<close>, whatever it
  returns: on a normal return and on every failure (the guard's destructor runs on each
  way out).
\<close>

theorem finalizeCalculation_idle:
  "currentState (snd (finalizeCalculation output c)) = idle"
  by (simp add: finalizeCalculation_def exitGuard_state split: prod.splits)

text \<open>
  The state is \<open>idle\<close> after the successful evaluation of the first run and after each of
  the failures: a wrong number of output vectors, double precision on a device without it,
  a failed build, a failed enqueue of the kernel, a failed read-back.
\<close>

theorem finalizeCalculation_idle_witness:
  "currentState scenario_declared = calc
   \<and> fst (finalizeCalculation [0] scenario_declared) = Inr ()
   \<and> currentState (snd (finalizeCalculation [0] scenario_declared)) = idle
   \<and> fst (finalizeCalculation [] scenario_declared) = Inl OutputArity
   \<and> currentState (snd (finalizeCalculation [] scenario_declared)) = idle
   \<and> fst (finalizeCalculation [0]
            (scenario_declared\<lparr>settings := settings0\<lparr>useDoublePrecision := True\<rparr>,
                               supportsDoublePrecision := False\<rparr>)) = Inl CapabilityMismatch
   \<and> currentState (snd (finalizeCalculation [0]
            (scenario_declared\<lparr>settings := settings0\<lparr>useDoublePrecision := True\<rparr>,
                               supportsDoublePrecision := False\<rparr>))) = idle
   \<and> fst (finalizeCalculation [0] (scenario_declared\<lparr>cl_answers := fail_at 3\<rparr>))
       = Inl (BuildFailed (- 5))
   \<and> currentState (snd (finalizeCalculation [0] (scenario_declared\<lparr>cl_answers := fail_at 3\<rparr>)))
       = idle
   \<and> fst (finalizeCalculation [0] (scenario_declared\<lparr>cl_answers := fail_at 8\<rparr>))
       = Inl (DeviceOp (- 5))
   \<and> currentState (snd (finalizeCalculation [0] (scenario_declared\<lparr>cl_answers := fail_at 8\<rparr>)))
       = idle
   \<and> fst (finalizeCalculation [0] (scenario_declared\<lparr>cl_answers := fail_at 9\<rparr>))
       = Inl (DeviceOp (- 5))
   \<and> currentState (snd (finalizeCalculation [0] (scenario_declared\<lparr>cl_answers := fail_at 9\<rparr>)))
       = idle"
  using finalize_outcomes
    finalizeCalculation_idle [of "[0]" scenario_declared]
    finalizeCalculation_idle [of "[]" scenario_declared]
    finalizeCalculation_idle [of "[0]"
      "scenario_declared\<lparr>settings := settings0\<lparr>useDoublePrecision := True\<rparr>,
                         supportsDoublePrecision := False\<rparr>"]
    finalizeCalculation_idle [of "[0]" "scenario_declared\<lparr>cl_answers := fail_at 3\<rparr>"]
    finalizeCalculation_idle [of "[0]" "scenario_declared\<lparr>cl_answers := fail_at 8\<rparr>"]
    finalizeCalculation_idle [of "[0]" "scenario_declared\<lparr>cl_answers := fail_at 9\<rparr>"]
  by (intro conjI) assumption+

section \<open>\<^verbatim>\<open>createInputVariable\<close>\<close>

lemma offsets_ok_Nil [simp]: "offsets_ok n []"
  by (simp add: offsets_ok_def)

lemma offsets_ok_snoc:
  assumes "offsets_ok n xs"
    and "off = (if xs = [] then 0
                else inputVarOffset (last xs) + (if inputVarIsScalar (last xs) then 1 else n))"
  shows "offsets_ok n (xs @ [\<lparr>inputVarOffset = off, inputVarIsScalar = s\<rparr>])"
proof (cases "xs = []")
  case True
  with assms show ?thesis by (simp add: offsets_ok_def)
next
  case False
  then have len: "0 < length xs" by simp
  have first: "inputVarOffset ((xs @ [\<lparr>inputVarOffset = off, inputVarIsScalar = s\<rparr>]) ! 0) = 0"
    using assms(1) False by (simp add: offsets_ok_def nth_append)
  have step: "inputVarOffset ((xs @ [\<lparr>inputVarOffset = off, inputVarIsScalar = s\<rparr>]) ! Suc j)
        = inputVarOffset ((xs @ [\<lparr>inputVarOffset = off, inputVarIsScalar = s\<rparr>]) ! j)
          + (if inputVarIsScalar ((xs @ [\<lparr>inputVarOffset = off, inputVarIsScalar = s\<rparr>]) ! j)
             then 1 else n)"
    if j: "j < length xs" for j
  proof (cases "Suc j < length xs")
    case True
    then have "j \<in> {0..<length xs - 1}" by simp
    with assms(1) have "inputVarOffset (xs ! Suc j)
        = inputVarOffset (xs ! j) + (if inputVarIsScalar (xs ! j) then 1 else n)"
      unfolding offsets_ok_def by blast
    with True j show ?thesis by (simp add: nth_append)
  next
    case F: False
    with j have e: "Suc j = length xs" by simp
    then have "length xs - 1 = j" by simp
    then have l: "last xs = xs ! j" using False by (simp add: last_conv_nth)
    show ?thesis using e j l assms(2) False by (simp add: nth_append)
  qed
  show ?thesis
    unfolding offsets_ok_def using first step by simp
qed

lemma nextOffset_spec:
  assumes "calc_at (calcs c) (currentId c) = Some k"
  shows "nextOffset c =
           Some (if inputVars c = [] then 0
                 else inputVarOffset (last (inputVars c))
                      + (if inputVarIsScalar (last (inputVars c)) then 1 else size_n k))"
  using assms by (simp add: nextOffset_def)

lemma pushValues_frame [simp]:
  "inputVars (pushValues vs c) = inputVars c"
  "calcs (pushValues vs c) = calcs c"
  "currentId (pushValues vs c) = currentId c"
  "currentState (pushValues vs c) = currentState c"
  "nVars (pushValues vs c) = nVars c"
  by (simp_all add: pushValues_def)

lemma createInputCall_step:
  assumes k: "calc_at (calcs c) (currentId c) = Some k"
    and st: "currentState c = createInput"
    and ok: "offsets_ok (size_n k) (inputVars c)"
  shows "calc_at (calcs (snd (createInputCall x c))) (currentId (snd (createInputCall x c))) = Some k
       \<and> currentState (snd (createInputCall x c)) = createInput
       \<and> offsets_ok (size_n k) (inputVars (snd (createInputCall x c)))
       \<and> map inputVarIsScalar (inputVars (snd (createInputCall x c)))
           = map inputVarIsScalar (inputVars c) @ [is_scalar_call x]
       \<and> fst (createInputCall x c) = Inr (nVars c)"
proof (cases x)
  case (ScalarInput v)
  show ?thesis
    using k st offsets_ok_snoc [OF ok refl, of True]
    by (simp add: ScalarInput createInputVariable_scalar_def nextOffset_spec [OF k] Let_def)
next
  case (VectorInput v)
  show ?thesis
    using k st offsets_ok_snoc [OF ok refl, of False]
    by (simp add: VectorInput createInputVariable_vector_def nextOffset_spec [OF k] Let_def)
qed

lemma createInputCalls_invariant:
  assumes "calc_at (calcs c) (currentId c) = Some k"
    and "currentState c = createInput"
    and "offsets_ok (size_n k) (inputVars c)"
  shows "offsets_ok (size_n k) (inputVars (createInputCalls calls c))
       \<and> map inputVarIsScalar (inputVars (createInputCalls calls c))
           = map inputVarIsScalar (inputVars c) @ map is_scalar_call calls"
  using assms
proof (induction calls arbitrary: c)
  case Nil
  then show ?case by (simp add: createInputCalls_def)
next
  case (Cons x calls)
  from createInputCall_step [OF Cons.prems, of x]
  have s: "calc_at (calcs (snd (createInputCall x c))) (currentId (snd (createInputCall x c))) = Some k"
    "currentState (snd (createInputCall x c)) = createInput"
    "offsets_ok (size_n k) (inputVars (snd (createInputCall x c)))"
    "map inputVarIsScalar (inputVars (snd (createInputCall x c)))
           = map inputVarIsScalar (inputVars c) @ [is_scalar_call x]"
    by simp_all
  from Cons.IH [OF s(1,2,3)] s(4) show ?case
    by (simp add: createInputCalls_def)
qed

lemma initiateCalculation_current:
  assumes "initiateCalculation n ident ver st c0 = (Inr r, c1)"
    and "length (calcs c0) < 2 ^ 64 - 1"
  shows "\<exists>k. calc_at (calcs c1) (currentId c1) = Some k \<and> size_n k = n \<and> \<not> disposed k"
  using assms
  by (auto simp add: initiateCalculation_def resetVariableInfo_def Let_def releaseProgram_def
      releaseKernel_def cl_def calc_at_last calc_at_upd split: if_splits option.splits)

text \<open>
  C4. After a successful \<^verbatim>\<open>initiateCalculation\<close> with batch size \<open>n\<close> (on a context with
  fewer than \<open>2^64 - 1\<close> calculation records), every sequence of calls of
  \<^verbatim>\<open>createInputVariable\<close> leaves input descriptors, one for each call and in the order of
  the calls, whose offsets satisfy: the first is \<open>0\<close>, and each next one is the previous
  one plus \<open>1\<close> after a scalar and plus \<open>n\<close> after a vector (in \<^verbatim>\<open>size_t\<close> arithmetic).
\<close>

theorem createInputVariable_offsets:
  assumes "initiateCalculation n ident ver st c0 = (Inr r, c1)"
    and "length (calcs c0) < 2 ^ 64 - 1"
  shows "offsets_ok n (inputVars (createInputCalls calls c1))
       \<and> map inputVarIsScalar (inputVars (createInputCalls calls c1)) = map is_scalar_call calls"
proof -
  from initiateCalculation_current [OF assms]
  obtain k where k: "calc_at (calcs c1) (currentId c1) = Some k" "size_n k = n" by blast
  have c1: "currentState c1 = createInput" "inputVars c1 = []"
    using assms(1)
    by (auto simp add: initiateCalculation_def resetVariableInfo_def Let_def
        split: if_splits option.splits)
  from createInputCalls_invariant [OF k(1) c1(1), of calls] c1(2) k(2)
  show ?thesis by simp
qed

theorem createInputVariable_offsets_witness:
  "offsets_ok 4 (inputVars (createInputCalls
       [ScalarInput 3, VectorInput (\<lambda>i. of_nat i + 1), ScalarInput 5] scenario_initiated))
   \<and> map inputVarOffset (inputVars (createInputCalls
       [ScalarInput 3, VectorInput (\<lambda>i. of_nat i + 1), ScalarInput 5] scenario_initiated))
       = [0, 1, 5]"
proof -
  have l: "length (calcs scenario_new) < 2 ^ 64 - 1"
    by (simp add: scenario_new_def newContext_def)
  have "map inputVarOffset (inputVars (createInputCalls
       [ScalarInput 3, VectorInput (\<lambda>i. of_nat i + 1), ScalarInput 5] scenario_initiated))
       = [0, 1, 5]"
    by (simp add: createInputCalls_def createInputVariable_scalar_def
        createInputVariable_vector_def nextOffset_def scenario_initiated_eq Let_def)
  with createInputVariable_offsets [OF scenario_initiated_run l] show ?thesis by simp
qed

section \<open>\<^verbatim>\<open>declareOutputVariable\<close>\<close>

text \<open>
  C6. In every non-idle state with a current calculation: when the calculation has no
  kernel yet, \<^verbatim>\<open>declareOutputVariable\<close> succeeds for every id, appends the id to the
  output list, increments the output count of the current record and leaves the state
  unchanged; when the kernel exists already (a repeated evaluation), the call fails and
  changes nothing.
\<close>

theorem declareOutputVariable_effect:
  assumes "currentState c \<noteq> idle" and "0 < currentId c"
    and "calc_at (calcs c) (currentId c) = Some k"
  shows "if hasKernel k
         then declareOutputVariable ident c = (Inl KernelExists, c)
         else fst (declareOutputVariable ident c) = Inr ()
            \<and> outputVariables (snd (declareOutputVariable ident c)) = outputVariables c @ [ident]
            \<and> calc_at (calcs (snd (declareOutputVariable ident c))) (currentId c)
                = Some (k\<lparr>nOutputVars := nOutputVars k + 1\<rparr>)
            \<and> currentState (snd (declareOutputVariable ident c)) = currentState c
            \<and> currentId (snd (declareOutputVariable ident c)) = currentId c"
  using assms by (simp add: declareOutputVariable_def calc_at_upd)

theorem declareOutputVariable_effect_witness:
  "fst (declareOutputVariable 3 scenario_ops) = Inr ()
   \<and> outputVariables (snd (declareOutputVariable 3 scenario_ops)) = [3]
   \<and> calc_at (calcs (snd (declareOutputVariable 3 scenario_ops))) 1
       = Some \<lparr>size_n = 4, disposed = False, hasKernel = False, version = 0,
                program = 0, kernel = 0, inputBufferSize = 0, nOutputVars = 1\<rparr>
   \<and> currentState (snd (declareOutputVariable 3 scenario_ops)) = calc"
proof -
  have k: "calc_at (calcs scenario_ops) (currentId scenario_ops)
             = Some \<lparr>size_n = 4, disposed = False, hasKernel = False, version = 0,
                     program = 0, kernel = 0, inputBufferSize = 0, nOutputVars = 0\<rparr>"
    by (simp add: scenario_ops_fields)
  have "currentState scenario_ops \<noteq> idle" "0 < currentId scenario_ops"
    by (simp_all add: scenario_ops_fields)
  from declareOutputVariable_effect [OF this k, of 3]
  show ?thesis
    by (simp add: scenario_ops_fields)
qed

text \<open>
  The claim as stated includes the repeated evaluation of a calculation whose kernel is
  cached; there the call is refused.
\<close>

theorem declareOutputVariable_cached_kernel_counterexample:
  "currentState scenario_repeat \<noteq> idle
   \<and> fst (declareOutputVariable 3 scenario_repeat) = Inl KernelExists
   \<and> outputVariables (snd (declareOutputVariable 3 scenario_repeat))
       = outputVariables scenario_repeat
   \<and> map nOutputVars (calcs (snd (declareOutputVariable 3 scenario_repeat)))
       = map nOutputVars (calcs scenario_repeat)"
  by (simp add: declareOutputVariable_def scenario_repeat_fields)

section \<open>\<^verbatim>\<open>initiateCalculation\<close>\<close>

text \<open>
  C7. Every successful \<^verbatim>\<open>initiateCalculation\<close> clears the input descriptors and values
  and the variable counter and sets the state \<open>createInput\<close>; the SSA text, the free list,
  the output list and the variate counter are reset when the call reports \<open>fresh = true\<close>
  and are all kept as they are when it reports \<open>fresh = false\<close>.
\<close>

theorem initiateCalculation_resets:
  assumes "initiateCalculation n ident ver st c = (Inr (cid, fresh), c')"
  shows "inputVars c' = [] \<and> inputVarValues32 c' = [] \<and> inputVarValues64 c' = []
       \<and> nVars c' = 0 \<and> currentState c' = createInput \<and> currentId c' = cid
       \<and> (if fresh
           then currentSsa c' = [] \<and> freedVariables c' = [] \<and> outputVariables c' = []
                \<and> nVariates c' = 0
           else currentSsa c' = currentSsa c \<and> freedVariables c' = freedVariables c
                \<and> outputVariables c' = outputVariables c \<and> nVariates c' = nVariates c)"
  using assms
  by (auto simp add: initiateCalculation_def resetVariableInfo_def Let_def releaseProgram_def
      releaseKernel_def cl_def split: if_splits option.splits)

theorem initiateCalculation_resets_witness:
  "inputVars variates_repeat = [] \<and> nVars variates_repeat = 0
   \<and> currentState variates_repeat = createInput
   \<and> freedVariables variates_repeat = [6] \<and> outputVariables variates_repeat = [7]
   \<and> nVariates variates_repeat = 6
   \<and> currentSsa variates_repeat = currentSsa variates_finalized
   \<and> freedVariables scenario_initiated = [] \<and> outputVariables scenario_initiated = []
   \<and> nVariates scenario_initiated = 0 \<and> currentSsa scenario_initiated = []"
  using initiateCalculation_resets [OF variates_repeat_run]
    initiateCalculation_resets [OF scenario_initiated_run]
  by (simp add: variates_finalized_fields)

text \<open>
  The claim as stated has the free list, the output list and the variate counter reset on
  every call. The second evaluation of the run with variates is not fresh and keeps them.
\<close>

theorem initiateCalculation_keeps_lists_counterexample:
  "fst (initiateCalculation 4 1 0 settings0 variates_finalized) = Inr (1, False)
   \<and> freedVariables (snd (initiateCalculation 4 1 0 settings0 variates_finalized)) = [6]
   \<and> outputVariables (snd (initiateCalculation 4 1 0 settings0 variates_finalized)) = [7]
   \<and> nVariates (snd (initiateCalculation 4 1 0 settings0 variates_finalized)) = 6"
  using variates_repeat_run variates_repeat_fields by simp

section \<open>An unhealthy context\<close>


lemma nextOffset_healthy [simp]: "nextOffset (c\<lparr>healthy := b\<rparr>) = nextOffset c"
  by (simp add: nextOffset_def split: option.splits)



lemma argStrOf_healthy [simp]: "argStrOf (c\<lparr>healthy := b\<rparr>) = argStrOf c"
  by (simp add: argStrOf_def fun_eq_iff)





section \<open>\<^verbatim>\<open>disposeCalculation\<close>\<close>

lemma disposeCalculation_live:
  assumes "calc_at (calcs c) ident = Some k" and "\<not> disposed k"
  shows "fst (disposeCalculation ident c) = Inr ()
       \<and> calc_at (calcs (snd (disposeCalculation ident c))) ident = Some (k\<lparr>disposed := True\<rparr>)
       \<and> cl_log (snd (disposeCalculation ident c))
           = cl_log c @ [ReleaseKernel (kernel k), ReleaseProgram (program k)]"
  using assms
  by (simp add: disposeCalculation_def releaseProgram_def releaseKernel_def cl_def calc_at_upd)

lemma disposeCalculation_disposed:
  assumes "calc_at (calcs c) ident = Some k" and "disposed k"
  shows "disposeCalculation ident c = (Inl BadId, c)"
  using assms by (simp add: disposeCalculation_def)

lemma disposeCalculation_twice:
  assumes "calc_at (calcs c) ident = Some k" and "\<not> disposed k"
  shows "fst (disposeCalculation ident (snd (disposeCalculation ident c))) = Inl BadId"
  using disposeCalculation_live [OF assms]
    disposeCalculation_disposed [of "snd (disposeCalculation ident c)" ident "k\<lparr>disposed := True\<rparr>"]
  by simp

text \<open>
  C9. For an id that is zero or greater than the number of the records, the code does not
  fail with \<open>BadId\<close>: \<^verbatim>\<open>disposed_[id - 1]\<close> is read outside the vector, with no check
  before it. The context of the first run holds one record; \<^verbatim>\<open>initiateCalculation\<close>
  refuses the id 2 on it, \<^verbatim>\<open>disposeCalculation\<close> does not.
\<close>

theorem disposeCalculation_unknown_id:
  "map disposed (calcs scenario_declared) = [False]
   \<and> fst (disposeCalculation 0 scenario_declared) = Inl Undefined
   \<and> fst (disposeCalculation 2 scenario_declared) = Inl Undefined
   \<and> fst (initiateCalculation 4 2 0 settings0 scenario_declared) = Inl BadId"
  by (simp add: disposeCalculation_def initiateCalculation_def scenario_declared_fields
      calc_at_zero_one Let_def word_le_nat_alt)

section \<open>The variate pool\<close>

subsection \<open>Rounding up to a multiple of 624\<close>

lemma round_up_624_eq:
  "round_up_624 D = 624 * (D div 624 + (if D mod 624 = 0 then 0 else 1))"
proof -
  define q r where "q = D div 624" and "r = D mod 624"
  have D: "D = q * 624 + r" and r: "r < 624"
    by (simp_all add: q_def r_def)
  have "(D + 623) div 624 = q + (r + 623) div 624"
    unfolding D by (simp add: add.assoc)
  moreover have "(r + 623) div 624 = (if r = 0 then 0 else 1)"
  proof (cases "r = 0")
    case True
    then show ?thesis by simp
  next
    case False
    then have "(r + 623) div 624 = 1"
      using r by (intro div_nat_eqI) simp_all
    with False show ?thesis by simp
  qed
  ultimately show ?thesis
    by (simp add: round_up_624_def q_def r_def)
qed

lemma round_up_624_props:
  "d \<le> round_up_624 d" "round_up_624 d mod 624 = 0"
proof -
  have "d = 624 * (d div 624) + d mod 624" by simp
  moreover have "d mod 624 < 624" by simp
  ultimately show "d \<le> round_up_624 d"
    unfolding round_up_624_eq by (cases "d mod 624 = 0") simp_all
  show "round_up_624 d mod 624 = 0"
    by (simp add: round_up_624_eq)
qed

lemma round_up_624_small:
  assumes "1 \<le> d" "d \<le> 624"
  shows "round_up_624 d = 624"
proof (cases "d = 624")
  case True
  then show ?thesis by (simp add: round_up_624_eq)
next
  case False
  with assms have "d div 624 = 0" "d mod 624 = d" by simp_all
  with assms show ?thesis by (simp add: round_up_624_eq)
qed

lemma round_up_wrap:
  fixes D M :: nat
  assumes D: "D < M" and M: "624 \<le> M"
    and le: "D \<le> round_up_624 D mod M"
  shows "round_up_624 D mod M = round_up_624 D"
proof (cases "round_up_624 D < M")
  case True
  then show ?thesis by simp
next
  case wrap: False
  have up: "round_up_624 D < D + 624"
  proof -
    define q r where "q = D div 624" and "r = D mod 624"
    have "D = q * 624 + r" by (simp add: q_def r_def)
    moreover have "round_up_624 D = 624 * (q + (if r = 0 then 0 else 1))"
      by (simp add: round_up_624_eq q_def r_def)
    ultimately show ?thesis by (cases "r = 0") simp_all
  qed
  have "round_up_624 D mod M = (round_up_624 D - M) mod M"
    using wrap by (simp add: le_mod_geq)
  also have "\<dots> \<le> round_up_624 D - M" by (rule mod_less_eq_dividend)
  also have "\<dots> < D" using up D M wrap by linarith
  finally show ?thesis using le by simp
qed

lemma unat_lt_64: "unat (w :: 64 word) < 2 ^ 64"
  using unsigned_less [of w, where 'a = nat] by simp

lemma alignedSize_unat:
  "unat (alignedSize demand) = round_up_624 (unat demand) mod 2 ^ 64"
proof -
  have m: "(demand mod 624 = 0) = (unat demand mod 624 = 0)"
  proof -
    have "(demand mod 624 = 0) = (unat (demand mod 624) = 0)" by (simp add: unat_eq_0)
    then show ?thesis by (simp add: unat_mod)
  qed
  have "unat (demand div 624 + (if demand mod 624 = 0 then 0 else 1))
          = (unat demand div 624 + (if unat demand mod 624 = 0 then 0 else 1)) mod 2 ^ 64"
  proof -
    have "unat demand div 624 \<le> unat demand" by (rule div_le_dividend)
    then have "unat demand div 624 < 2 ^ 64" using unat_lt_64 [of demand] by (rule le_less_trans)
    then have "unat demand div 624 mod 2 ^ 64 = unat demand div 624" by (rule mod_less)
    then show ?thesis by (simp add: m unat_word_ariths unat_div)
  qed
  note inner = this
  have "unat (alignedSize demand)
          = unat (624 :: 64 word)
            * unat (demand div 624 + (if demand mod 624 = 0 then 0 else 1)) mod 2 ^ LENGTH(64)"
    unfolding alignedSize_def by (rule unat_word_ariths(2))
  also have "\<dots>
          = (624 * ((unat demand div 624 + (if unat demand mod 624 = 0 then 0 else 1)) mod 2 ^ 64))
             mod 2 ^ 64"
    unfolding inner by simp
  also have "\<dots> = (624 * (unat demand div 624 + (if unat demand mod 624 = 0 then 0 else 1)))
             mod 2 ^ 64"
    by (rule mod_mult_right_eq)
  finally show ?thesis by (simp add: round_up_624_eq)
qed

lemma alignedSize_exact:
  assumes "demand \<le> alignedSize demand"
  shows "unat (alignedSize demand) = round_up_624 (unat demand)"
proof -
  have "unat demand \<le> round_up_624 (unat demand) mod 2 ^ 64"
    using assms by (simp add: word_le_nat_alt alignedSize_unat)
  from round_up_wrap [OF unat_lt_64 _ this] show ?thesis
    by (simp add: alignedSize_unat)
qed

subsection \<open>What an update of the pool changes\<close>

lemma pool_frame_refl [simp]: "pool_frame c c"
  by (simp add: pool_frame_def)

lemma pool_frame_trans: "pool_frame a b \<Longrightarrow> pool_frame b c \<Longrightarrow> pool_frame a c"
  by (simp add: pool_frame_def)

lemma pool_frame_cl [simp]:
  "pool_frame c (snd (cl call c))"
  "variatesPoolSize (snd (cl call c)) = variatesPoolSize c"
  by (simp_all add: pool_frame_def cl_def)

lemma cl_create_cases: "\<exists>e h. cl_create call c = (e, h, c\<lparr>cl_log := cl_log c @ [call]\<rparr>)"
  by (simp add: cl_create_def Let_def)

lemma fillStep_frame:
  "pool_frame c (snd (fillStep cur c)) \<and> variatesPoolSize (snd (fillStep cur c)) = variatesPoolSize c"
  by (simp add: fillStep_def cl_def pool_frame_def Let_def)

lemma fillLoop_result:
  assumes "fillLoop cur hg demand c = Some res"
  shows "pool_frame c (snd res) \<and> variatesPoolSize (snd res) = variatesPoolSize c
       \<and> (case fst res of Inl e \<Rightarrow> True | Inr (cur', hg') \<Rightarrow> demand \<le> cur')"
proof (rule fillLoop.raw_induct
    [where P = "\<lambda>cur hg demand c res.
       pool_frame c (snd res) \<and> variatesPoolSize (snd res) = variatesPoolSize c
       \<and> (case fst res of Inl e \<Rightarrow> True | Inr (cur', hg') \<Rightarrow> demand \<le> cur')", OF _ assms])
  fix f cur hg demand c res
  assume IH: "\<And>cur hg demand c res. f cur hg demand c = Some res \<Longrightarrow>
       pool_frame c (snd res) \<and> variatesPoolSize (snd res) = variatesPoolSize c
       \<and> (case fst res of Inl e \<Rightarrow> True | Inr (cur', hg') \<Rightarrow> demand \<le> cur')"
    and body: "(if cur < demand
      then (case fillStep cur c of
              (Inl e, c') \<Rightarrow> Some (Inl e, c')
            | (Inr u, c') \<Rightarrow> f (cur + 624) True demand c')
      else Some (Inr (cur, hg), c)) = Some res"
  show "pool_frame c (snd res) \<and> variatesPoolSize (snd res) = variatesPoolSize c
       \<and> (case fst res of Inl e \<Rightarrow> True | Inr (cur', hg') \<Rightarrow> demand \<le> cur')"
  proof (cases "cur < demand")
    case False
    with body show ?thesis by (auto simp add: not_less)
  next
    case True
    obtain r c1 where s: "fillStep cur c = (r, c1)" by (cases "fillStep cur c") auto
    from fillStep_frame [of c cur] s
    have fr: "pool_frame c c1" "variatesPoolSize c1 = variatesPoolSize c" by simp_all
    show ?thesis
    proof (cases r)
      case (Inl e)
      with body True s fr show ?thesis by auto
    next
      case (Inr u)
      with body True s have "f (cur + 624) True demand c1 = Some res" by simp
      from IH [OF this] fr show ?thesis
        by (auto intro: pool_frame_trans)
    qed
  qed
qed

lemma buildVariatesKernels_frame:
  "pool_frame c (snd (buildVariatesKernels c))
   \<and> variatesPoolSize (snd (buildVariatesKernels c)) = variatesPoolSize c"
  by (simp add: buildVariatesKernels_def cl_def cl_create_def pool_frame_def Let_def)

lemma releaseMem_frame [simp]:
  "pool_frame c (releaseMem m c')  = pool_frame c c'"
  "variatesPoolSize (releaseMem m c) = variatesPoolSize c"
  by (simp_all add: releaseMem_def cl_def pool_frame_def)

lemma growVariatesPool_result:
  assumes "growVariatesPool demand c = Some (r, c')"
  shows "pool_frame c c'
       \<and> (case r of
             Inl e \<Rightarrow> variatesPoolSize c' = variatesPoolSize c
           | Inr u \<Rightarrow> variatesPoolSize c' = alignedSize demand \<and> demand \<le> alignedSize demand)"
proof -
  define rel where
    "rel = (\<lambda>x. if 0 < variatesPoolSize c then releaseMem (variatesPool c) x else x)"
  have rel: "pool_frame c (rel x) = pool_frame c x"
    "variatesPoolSize (rel x) = variatesPoolSize x" for x
    by (simp_all add: rel_def)
  obtain err buf where cr: "cl_create (CreateBuffer (fpSize c * alignedSize demand)) c
      = (err, buf, c\<lparr>cl_log := cl_log c @ [CreateBuffer (fpSize c * alignedSize demand)]\<rparr>)"
    using cl_create_cases by blast
  define c1 where "c1 = c\<lparr>cl_log := cl_log c @ [CreateBuffer (fpSize c * alignedSize demand)],
                          variatesPool := buf\<rparr>"
  have f1: "pool_frame c c1" "variatesPoolSize c1 = variatesPoolSize c"
    by (simp_all add: c1_def pool_frame_def)
  define cp where "cp = (if 0 < variatesPoolSize c
               then cl (EnqueueCopyBuffer (variatesPool c) buf (fpSize c * variatesPoolSize c)) c1
               else (0, c1))"
  obtain err2 c2 where cp2: "cp = (err2, c2)" by (cases cp) auto
  have f2: "pool_frame c c2" "variatesPoolSize c2 = variatesPoolSize c"
  proof -
    have "c2 = c1 \<or> c2 = snd (cl (EnqueueCopyBuffer (variatesPool c) buf
                                   (fpSize c * variatesPoolSize c)) c1)"
      using cp2 by (auto simp add: cp_def split: if_splits)
    then show "pool_frame c c2" "variatesPoolSize c2 = variatesPoolSize c"
      using f1 pool_frame_trans [OF f1(1) pool_frame_cl(1)] by auto
  qed
  have g: "growVariatesPool demand c =
       (if err \<noteq> 0 then Some (Inl (DeviceOp err), rel c1)
        else if err2 \<noteq> 0 then Some (Inl (DeviceOp err2), rel c2)
        else
          (case fillLoop (variatesPoolSize c) False demand c2 of
             None \<Rightarrow> None
           | Some (Inl e, c3) \<Rightarrow> Some (Inl e, rel c3)
           | Some (Inr (currentPoolSize, haveGenerated), c3) \<Rightarrow>
               if currentPoolSize \<noteq> alignedSize demand
               then Some (Inl InternalError,
                      rel (if 0 < variatesPoolSize c \<or> haveGenerated
                           then snd (cl WaitForEvents c3) else c3))
               else Some (Inr (),
                      rel ((if 0 < variatesPoolSize c \<or> haveGenerated
                            then snd (cl WaitForEvents c3) else c3)
                           \<lparr>variatesPoolSize := currentPoolSize\<rparr>))))"
    unfolding growVariatesPool_def Let_def cr prod.case rel_def c1_def
    unfolding cp2 [unfolded cp_def c1_def] prod.case
    by (rule refl)
  show ?thesis
  proof (cases "err \<noteq> 0")
    case True
    with assms g have "r = Inl (DeviceOp err)" "c' = rel c1" by simp_all
    with f1 rel show ?thesis by simp
  next
    case e0: False
    show ?thesis
    proof (cases "err2 \<noteq> 0")
      case True
      with assms g e0 have "r = Inl (DeviceOp err2)" "c' = rel c2" by simp_all
      with f2 rel show ?thesis by simp
    next
      case e2: False
      from assms g e0 e2 obtain res where fl: "fillLoop (variatesPoolSize c) False demand c2 = Some res"
        by (cases "fillLoop (variatesPoolSize c) False demand c2") simp_all
      obtain r3 c3 where res: "res = (r3, c3)" by (cases res) auto
      from fillLoop_result [OF fl] res f2
      have f3: "pool_frame c c3" "variatesPoolSize c3 = variatesPoolSize c"
        "case r3 of Inl e \<Rightarrow> True | Inr (cur', hg') \<Rightarrow> demand \<le> cur'"
        by (auto intro: pool_frame_trans)
      have f3w: "pool_frame c (snd (cl WaitForEvents c3))"
        "variatesPoolSize (snd (cl WaitForEvents c3)) = variatesPoolSize c"
        using pool_frame_trans [OF f3(1) pool_frame_cl(1)] f3(2) by simp_all
      show ?thesis
      proof (cases r3)
        case (Inl e)
        with assms g e0 e2 fl res have "r = Inl e" "c' = rel c3" by simp_all
        with f3 rel show ?thesis by simp
      next
        case (Inr p)
        obtain cur' hg' where p: "p = (cur', hg')" by (cases p) auto
        from f3(3) Inr p have d: "demand \<le> cur'" by simp
        define c4 where "c4 = (if 0 < variatesPoolSize c \<or> hg'
                               then snd (cl WaitForEvents c3) else c3)"
        have f4: "pool_frame c c4" "variatesPoolSize c4 = variatesPoolSize c"
          using f3 f3w by (simp_all add: c4_def)
        show ?thesis
        proof (cases "cur' \<noteq> alignedSize demand")
          case True
          with assms g e0 e2 fl res Inr p have "r = Inl InternalError" "c' = rel c4"
            by (simp_all add: c4_def)
          with f4 rel show ?thesis by simp
        next
          case False
          with assms g e0 e2 fl res Inr p have "r = Inr ()"
            "c' = rel (c4\<lparr>variatesPoolSize := cur'\<rparr>)"
            by (simp_all add: c4_def)
          moreover have "pool_frame c (c4\<lparr>variatesPoolSize := cur'\<rparr>)"
            using f4(1) by (simp add: pool_frame_def)
          ultimately show ?thesis using rel False d by simp
        qed
      qed
    qed
  qed
qed

lemma updateVariatesPool_cases:
  assumes "updateVariatesPool c = Some (r, c')"
  shows "pool_frame c c'
       \<and> (case r of
             Inl e \<Rightarrow> variatesPoolSize c' = variatesPoolSize c
           | Inr u \<Rightarrow>
               (\<exists>k. calc_at (calcs c) (currentId c) = Some k
                  \<and> (if nVariates c * size_n k \<le> variatesPoolSize c
                      then variatesPoolSize c' = variatesPoolSize c
                      else variatesPoolSize c' = alignedSize (nVariates c * size_n k)
                           \<and> nVariates c * size_n k \<le> alignedSize (nVariates c * size_n k))))"
proof (cases "0 < nVariates c")
  case False
  with assms show ?thesis by (auto simp add: updateVariatesPool_def)
next
  case nv: True
  define bp where "bp = (if variatesPoolSize c = 0 then buildVariatesKernels c else (Inr (), c))"
  obtain r1 c1 where bp1: "bp = (r1, c1)" by (cases bp) auto
  have f1: "pool_frame c c1" "variatesPoolSize c1 = variatesPoolSize c"
  proof -
    have "c1 = c \<or> c1 = snd (buildVariatesKernels c)"
      using bp1 by (auto simp add: bp_def split: if_splits)
    then show "pool_frame c c1" "variatesPoolSize c1 = variatesPoolSize c"
      using buildVariatesKernels_frame [of c] by auto
  qed
  have same: "calcs c1 = calcs c" "currentId c1 = currentId c" "nVariates c1 = nVariates c"
    using f1(1) by (simp_all add: pool_frame_def)
  have u: "updateVariatesPool c =
     (case r1 of
        Inl e \<Rightarrow> Some (Inl e, c1)
      | Inr u \<Rightarrow>
          (case calc_at (calcs c) (currentId c) of
             None \<Rightarrow> Some (Inl Undefined, c1)
           | Some k \<Rightarrow>
               if nVariates c * size_n k \<le> variatesPoolSize c
               then Some (Inr (),
                      (if variatesPoolSize c = 0 then snd (cl WaitForEvents c1) else c1))
               else growVariatesPool (nVariates c * size_n k) c1))"
    using nv unfolding updateVariatesPool_def bp_def [symmetric] bp1
    by (simp add: same f1(2) split: sum.splits option.splits)
  show ?thesis
  proof (cases r1)
    case (Inl e)
    with assms u f1 show ?thesis by auto
  next
    case (Inr u1)
    show ?thesis
    proof (cases "calc_at (calcs c) (currentId c)")
      case None
      with assms u Inr f1 show ?thesis by auto
    next
      case (Some k)
      show ?thesis
      proof (cases "nVariates c * size_n k \<le> variatesPoolSize c")
        case True
        have "pool_frame c (snd (cl WaitForEvents c1))"
          "variatesPoolSize (snd (cl WaitForEvents c1)) = variatesPoolSize c"
          using pool_frame_trans [OF f1(1) pool_frame_cl(1)] f1(2) by simp_all
        with assms u Inr Some True f1 show ?thesis
          by (auto split: if_splits)
      next
        case False
        with assms u Inr Some
        have g: "growVariatesPool (nVariates c * size_n k) c1 = Some (r, c')" by simp
        from growVariatesPool_result [OF g] f1 Some False show ?thesis
          by (auto intro: pool_frame_trans split: sum.splits)
      qed
    qed
  qed
qed

subsection \<open>The size after an update\<close>

text \<open>
  For every successful return of \<^verbatim>\<open>updateVariatesPool\<close>, with the demand
  \<open>nVariates * n\<close> as the code computes it (a \<^verbatim>\<open>size_t\<close> product): a pool that held at
  least the demand is left as it was; otherwise the new size is the demand rounded up to
  the next multiple of 624. So the new size is at least the demand, it is a multiple of 624
  whenever the old size was one (the pool starts with size 0 and is resized nowhere else),
  and growing from size 0 with a demand between 1 and 624 gives exactly 624.
\<close>

lemma updateVariatesPool_size:
  assumes "updateVariatesPool c = Some (Inr (), c')"
    and "calc_at (calcs c) (currentId c) = Some k"
  shows "(if nVariates c * size_n k \<le> variatesPoolSize c
          then variatesPoolSize c' = variatesPoolSize c
          else unat (variatesPoolSize c') = round_up_624 (unat (nVariates c * size_n k)))
       \<and> nVariates c * size_n k \<le> variatesPoolSize c'
       \<and> (unat (variatesPoolSize c) mod 624 = 0 \<longrightarrow> unat (variatesPoolSize c') mod 624 = 0)
       \<and> (variatesPoolSize c = 0 \<and> 1 \<le> nVariates c * size_n k \<and> nVariates c * size_n k \<le> 624
            \<longrightarrow> variatesPoolSize c' = 624)"
proof -
  define demand where "demand = nVariates c * size_n k"
  from updateVariatesPool_cases [OF assms(1)] assms(2)
  have cs: "if demand \<le> variatesPoolSize c
            then variatesPoolSize c' = variatesPoolSize c
            else variatesPoolSize c' = alignedSize demand \<and> demand \<le> alignedSize demand"
    by (simp add: demand_def)
  show ?thesis
  proof (cases "demand \<le> variatesPoolSize c")
    case True
    with cs have e: "variatesPoolSize c' = variatesPoolSize c" by simp
    have "\<not> (variatesPoolSize c = 0 \<and> 1 \<le> demand)"
      using True by (auto simp add: word_le_nat_alt)
    with True e show ?thesis unfolding demand_def [symmetric] by auto
  next
    case False
    with cs have e: "variatesPoolSize c' = alignedSize demand" "demand \<le> alignedSize demand"
      by simp_all
    from alignedSize_exact [OF e(2)]
    have u: "unat (variatesPoolSize c') = round_up_624 (unat demand)" by (simp add: e(1))
    have small: "variatesPoolSize c' = 624" if "1 \<le> demand" "demand \<le> 624"
    proof -
      from that have "1 \<le> unat demand" "unat demand \<le> 624"
        by (simp_all add: word_le_nat_alt)
      from round_up_624_small [OF this] u have "unat (variatesPoolSize c') = unat (624 :: 64 word)"
        by simp
      then show ?thesis by (simp only: word_unat_eq_iff)
    qed
    show ?thesis
      unfolding demand_def [symmetric]
      using False e u small round_up_624_props(2) [of "unat demand"] by simp
  qed
qed

text \<open>
  The three requests of the run with variates: 24 samples from an empty pool, 28 samples
  that the pool of 624 covers, 824 samples that it does not.
\<close>

lemma updateVariatesPool_examples:
  "variatesPoolSize variates_requested = 0
   \<and> nVariates variates_requested * 4 = 24
   \<and> variatesPoolSize (snd (the (updateVariatesPool variates_requested))) = 624
   \<and> variatesPoolSize variates_covered = 624
   \<and> nVariates variates_covered * 4 = 28
   \<and> variatesPoolSize (snd (the (updateVariatesPool variates_covered))) = 624
   \<and> variatesPoolSize variates_growing = 624
   \<and> nVariates variates_growing * 4 = 824
   \<and> unat (variatesPoolSize (snd (the (updateVariatesPool variates_growing)))) = 1248"
proof -
  have r1: "updateVariatesPool variates_requested
              = Some (Inr (), snd (the (updateVariatesPool variates_requested)))"
    using pool_runs(1) by (auto split: option.splits sum.splits)
  have r2: "updateVariatesPool variates_covered
              = Some (Inr (), snd (the (updateVariatesPool variates_covered)))"
    using pool_runs(2) by (auto split: option.splits sum.splits)
  have r3: "updateVariatesPool variates_growing
              = Some (Inr (), snd (the (updateVariatesPool variates_growing)))"
    using pool_runs(3) by (auto split: option.splits sum.splits)
  have ru: "round_up_624 824 = 1248"
    by (simp add: round_up_624_def)
  from updateVariatesPool_size [OF r1 pool_run_fields(4)]
    updateVariatesPool_size [OF r2 pool_run_fields(5)]
    updateVariatesPool_size [OF r3 pool_run_fields(6)]
  show ?thesis
    by (simp add: pool_run_fields ru word_le_nat_alt)
qed

text \<open>
  The number of samples that \<open>nVariates\<close> variates of batch size \<open>n\<close> need is the product
  of the two numbers. Where this product is below \<open>2\<^sup>6\<^sup>4\<close>, the \<^verbatim>\<open>size_t\<close> product of the
  code is this number, and every successful update leaves a pool that holds it.
\<close>

lemma unat_mult_exact:
  "unat a * unat b < 2 ^ 64 \<Longrightarrow> unat (a * b :: 64 word) = unat a * unat b"
  by (simp add: unat_word_ariths(2))

lemma updateVariatesPool_size_exact:
  assumes "updateVariatesPool c = Some (Inr (), c')"
    and "calc_at (calcs c) (currentId c) = Some k"
    and "unat (nVariates c) * unat (size_n k) < 2 ^ 64"
  shows "(if unat (nVariates c) * unat (size_n k) \<le> unat (variatesPoolSize c)
          then variatesPoolSize c' = variatesPoolSize c
          else unat (variatesPoolSize c') = round_up_624 (unat (nVariates c) * unat (size_n k)))
       \<and> unat (nVariates c) * unat (size_n k) \<le> unat (variatesPoolSize c')
       \<and> (unat (variatesPoolSize c) mod 624 = 0 \<longrightarrow> unat (variatesPoolSize c') mod 624 = 0)
       \<and> (variatesPoolSize c = 0 \<and> 1 \<le> unat (nVariates c) * unat (size_n k)
            \<and> unat (nVariates c) * unat (size_n k) \<le> 624
            \<longrightarrow> variatesPoolSize c' = 624)"
  using updateVariatesPool_size [OF assms(1,2)] unat_mult_exact [OF assms(3)]
  by (simp add: word_le_nat_alt)

subsection \<open>A demand beyond \<^verbatim>\<open>size_t\<close>\<close>

lemma wide_initiated_run:
  "initiateCalculation (2 ^ 62) 0 0 settings0 scenario_new = (Inr (1, True), wide_initiated)"
  by (simp add: wide_initiated_def scenario_new_def newContext_def initiateCalculation_def
      resetVariableInfo_def Let_def)

lemma wide_initiated_fields:
  "currentState wide_initiated = createInput"
  "currentId wide_initiated = 1"
  "calcs wide_initiated = [\<lparr>size_n = 2 ^ 62, disposed = False, hasKernel = False, version = 0,
                            program = 0, kernel = 0, inputBufferSize = 0, nOutputVars = 0\<rparr>]"
  "nVars wide_initiated = 0"
  "nVariates wide_initiated = 0"
  "variatesPoolSize wide_initiated = 0"
  by (simp_all add: wide_initiated_def scenario_new_def newContext_def initiateCalculation_def
      resetVariableInfo_def Let_def)

lemma wide_variates_run:
  "createInputVariates 8 1 wide_initiated
     = Some (Inr [[0], [1], [2], [3], [4], [5], [6], [7]], wide_variates)"
proof -
  have "case createInputVariates 8 1 wide_initiated of
          Some (Inr ids, c') \<Rightarrow> ids = [[0], [1], [2], [3], [4], [5], [6], [7]]
        | _ \<Rightarrow> False"
    by code_simp
  then show ?thesis
    by (auto simp add: wide_variates_def split: option.splits sum.splits)
qed

lemma wide_requested_run:
  "updateVariatesPool wide_requested = Some (Inr (), wide_variates)"
proof -
  have a: "assignIds 8 1 0 = ([[0], [1], [2], [3], [4], [5], [6], [7]], 8)"
    by code_simp
  have "createInputVariates 8 1 wide_initiated =
     (case updateVariatesPool wide_requested of
        None \<Rightarrow> None
      | Some (Inl e, c2) \<Rightarrow> Some (Inl e, c2)
      | Some (Inr u, c2) \<Rightarrow> Some (Inr [[0], [1], [2], [3], [4], [5], [6], [7]], c2))"
    by (auto simp add: createInputVariates_def wide_initiated_fields a wide_requested_def
        split: option.splits sum.splits)
  with wide_variates_run show ?thesis
    by (auto split: option.splits sum.splits)
qed

lemma wide_variates_fields:
  "variatesPoolSize wide_variates = 0"
  "nVariates wide_variates = 8"
  "map size_n (calcs wide_variates) = [2 ^ 62]"
  "cl_log wide_variates =
     [CreateProgramWithSource (VariatesSource False), BuildProgram 1,
      CreateKernel 1 ''ore_seedInitialization'', CreateKernel 1 ''ore_twist'',
      CreateKernel 1 ''ore_generate'', CreateBuffer 4992,
      SetKernelArgValue 3 0 42, SetKernelArg 3 1 6, EnqueueNDRangeKernel 3 1,
      WaitForEvents]"
  by code_simp+

text \<open>
  C2. The update of the pool does not leave a pool of at least \<open>nVariates * n\<close> samples
  after every successful return. The code compares the pool size with the \<^verbatim>\<open>size_t\<close>
  product \<^verbatim>\<open>nVariates_ * size_[currentId_ - 1]\<close> and does not check that the product fits.
  After \<^verbatim>\<open>initiateCalculation\<close> with the batch size \<open>2\<^sup>6\<^sup>2\<close> on a new context,
  \<^verbatim>\<open>createInputVariates(8, 1)\<close> returns eight ids; the update it runs returns without
  an error; \<open>2\<^sup>6\<^sup>5\<close> samples are needed, the product of the code is 0, and the pool has
  the size 0 afterwards: the kernels of the generator were built, the 624 words of its
  state were allocated and seeded, and no buffer of samples was created.
\<close>

theorem updateVariatesPool_demand_wraps:
  "initiateCalculation (2 ^ 62) 0 0 settings0 scenario_new = (Inr (1, True), wide_initiated)
   \<and> createInputVariates 8 1 wide_initiated
       = Some (Inr [[0], [1], [2], [3], [4], [5], [6], [7]], wide_variates)
   \<and> updateVariatesPool wide_requested = Some (Inr (), wide_variates)
   \<and> nVariates wide_variates = 8
   \<and> map size_n (calcs wide_variates) = [2 ^ 62]
   \<and> unat (nVariates wide_variates) * unat (2 ^ 62 :: size_t) = 2 ^ 65
   \<and> nVariates wide_variates * 2 ^ 62 = 0
   \<and> variatesPoolSize wide_variates = 0
   \<and> cl_log wide_variates =
       [CreateProgramWithSource (VariatesSource False), BuildProgram 1,
        CreateKernel 1 ''ore_seedInitialization'', CreateKernel 1 ''ore_twist'',
        CreateKernel 1 ''ore_generate'', CreateBuffer 4992,
        SetKernelArgValue 3 0 42, SetKernelArg 3 1 6, EnqueueNDRangeKernel 3 1,
        WaitForEvents]"
  using wide_initiated_run wide_variates_run wide_requested_run wide_variates_fields
  by simp

section \<open>\<^verbatim>\<open>createInputVariates\<close>\<close>

lemma assignId_pair:
  "assignId j i (resultIds, nv) = (resultIds[i := (resultIds ! i)[j := nv]], nv + 1)"
  by (simp add: assignId_def)

lemma assignId_inner:
  assumes "m \<le> length res"
  shows "fold (assignId j) [0..<m] (res, nv)
     = (map (\<lambda>i. if i < m then (res ! i)[j := nv + of_nat i] else res ! i) [0..<length res],
        nv + of_nat m)"
  using assms
proof (induction m)
  case 0
  then show ?case by (simp add: map_nth)
next
  case (Suc m)
  then have IH: "fold (assignId j) [0..<m] (res, nv)
     = (map (\<lambda>i. if i < m then (res ! i)[j := nv + of_nat i] else res ! i) [0..<length res],
        nv + of_nat m)" and m: "m < length res"
    by simp_all
  have "(map (\<lambda>i. if i < m then (res ! i)[j := nv + of_nat i] else res ! i) [0..<length res])
          [m := (map (\<lambda>i. if i < m then (res ! i)[j := nv + of_nat i] else res ! i)
                   [0..<length res] ! m)[j := nv + of_nat m]]
        = map (\<lambda>i. if i < Suc m then (res ! i)[j := nv + of_nat i] else res ! i) [0..<length res]"
    using m by (intro nth_equalityI) (auto simp add: nth_list_update less_Suc_eq)
  then show ?case
    by (simp add: IH assignId_pair add.assoc add.commute)
qed

lemma assignIds_outer:
  assumes "s \<le> S"
  shows "fold (\<lambda>j. fold (assignId j) [0..<D]) [0..<s]
           (replicate D (replicate S 0), nv)
     = (map (\<lambda>i. map (\<lambda>j. if j < s then nv + of_nat j * of_nat D + of_nat i else 0) [0..<S])
          [0..<D],
        nv + of_nat s * of_nat D)"
  using assms
proof (induction s)
  case 0
  show ?case
    by (intro prod_eqI nth_equalityI) (simp_all)
next
  case (Suc s)
  then have IH: "fold (\<lambda>j. fold (assignId j) [0..<D]) [0..<s]
           (replicate D (replicate S 0), nv)
     = (map (\<lambda>i. map (\<lambda>j. if j < s then nv + of_nat j * of_nat D + of_nat i else 0) [0..<S])
          [0..<D],
        nv + of_nat s * of_nat D)" and s: "s < S"
    by simp_all
  define res where
    "res = map (\<lambda>i. map (\<lambda>j. if j < s then nv + of_nat j * of_nat D + of_nat i else (0::size_t))
                       [0..<S]) [0..<D]"
  have len: "length res = D" by (simp add: res_def)
  have inner: "fold (assignId s) [0..<D] (res, nv + of_nat s * of_nat D)
     = (map (\<lambda>i. if i < D then (res ! i)[s := nv + of_nat s * of_nat D + of_nat i] else res ! i)
          [0..<length res],
        nv + of_nat s * of_nat D + of_nat D)"
    by (rule assignId_inner) (simp add: len)
  have "map (\<lambda>i. if i < D then (res ! i)[s := nv + of_nat s * of_nat D + of_nat i] else res ! i)
          [0..<length res]
      = map (\<lambda>i. map (\<lambda>j. if j < Suc s then nv + of_nat j * of_nat D + of_nat i else 0) [0..<S])
          [0..<D]"
    using s
    by (intro nth_equalityI)
      (auto simp add: len res_def nth_list_update less_Suc_eq intro!: nth_equalityI)
  with inner show ?case
    by (simp add: IH res_def [symmetric] algebra_simps)
qed

lemma assignIds_spec:
  "assignIds dims steps nv
     = (map (\<lambda>i. map (\<lambda>j. nv + of_nat j * dims + of_nat i) [0..<unat steps]) [0..<unat dims],
        nv + dims * steps)"
proof -
  have "assignIds dims steps nv
     = (map (\<lambda>i. map (\<lambda>j. if j < unat steps then nv + of_nat j * of_nat (unat dims) + of_nat i
                             else 0) [0..<unat steps]) [0..<unat dims],
        nv + of_nat (unat steps) * of_nat (unat dims))"
    unfolding assignIds_def by (rule assignIds_outer) simp
  then show ?thesis
    by (simp add: mult.commute cong: map_cong)
qed

lemma variates_created_run:
  "createInputVariates 2 3 scenario_initiated
     = Some (Inr [[0, 2, 4], [1, 3, 5]], variates_created)"
proof -
  have "case createInputVariates 2 3 scenario_initiated of
          Some (Inr ids, c') \<Rightarrow> ids = [[0, 2, 4], [1, 3, 5]]
        | _ \<Rightarrow> False"
    by code_simp
  then show ?thesis
    by (auto simp add: variates_created_def split: option.splits sum.splits)
qed

text \<open>
  C10. A successful \<^verbatim>\<open>createInputVariates(dim, steps)\<close> returns a matrix of \<open>dim\<close> rows
  and \<open>steps\<close> columns whose entry \<open>[i][j]\<close> is \<open>v + j * dim + i\<close>, where \<open>v\<close> is the
  variable counter before the call; the counter is \<open>v + dim * steps\<close> afterwards, and
  \<open>nVariates\<close> has grown by \<open>dim * steps\<close> (all in \<^verbatim>\<open>size_t\<close> arithmetic).
\<close>

theorem createInputVariates_ids:
  assumes "createInputVariates dims steps c = Some (Inr resultIds, c')"
  shows "length resultIds = unat dims
       \<and> (\<forall>i \<in> {0..<unat dims}. length (resultIds ! i) = unat steps
            \<and> (\<forall>j \<in> {0..<unat steps}. resultIds ! i ! j = nVars c + of_nat j * dims + of_nat i))
       \<and> nVars c' = nVars c + dims * steps
       \<and> nVariates c' = nVariates c + dims * steps"
proof -
  define c1 where "c1 = c\<lparr>currentState := createVariates, nVars := nVars c + dims * steps,
                          nVariates := nVariates c + dims * steps\<rparr>"
  from assms obtain u where
    r: "resultIds = map (\<lambda>i. map (\<lambda>j. nVars c + of_nat j * dims + of_nat i) [0..<unat steps])
                      [0..<unat dims]"
    and up: "updateVariatesPool c1 = Some (Inr u, c')"
    by (auto simp add: createInputVariates_def assignIds_spec c1_def Let_def
        split: if_splits option.splits sum.splits)
  from updateVariatesPool_cases [OF up] have "pool_frame c1 c'" by simp
  then have "nVars c' = nVars c1" "nVariates c' = nVariates c1"
    by (simp_all add: pool_frame_def)
  then show ?thesis by (simp add: r c1_def)
qed

theorem createInputVariates_ids_witness:
  "fst (the (createInputVariates 2 3 scenario_initiated)) = Inr [[0, 2, 4], [1, 3, 5]]
   \<and> nVars scenario_initiated = 0 \<and> nVariates scenario_initiated = 0
   \<and> nVars variates_created = 6 \<and> nVariates variates_created = 6"
  using createInputVariates_ids [OF variates_created_run]
  by (simp add: variates_created_run scenario_initiated_fields)

text \<open>
  \<^verbatim>\<open>createInputVariates(0, 0)\<close> in a valid state, for a calculation without a kernel:
  when no variates exist yet (\<open>nVariates = 0\<close>), the call fails with the internal error of
  \<^verbatim>\<open>updateVariatesPool\<close>, and nothing but the state (now \<open>createVariates\<close>) has changed:
  the pool is untouched and no device call was made. When variates exist and the pool is
  not empty and holds \<open>nVariates * n\<close> samples, the call returns the empty matrix, and again
  nothing but the state has changed.
\<close>

lemma createInputVariates_zero:
  assumes "currentState c = createInput \<or> currentState c = createVariates"
    and "0 < currentId c" and "calc_at (calcs c) (currentId c) = Some k" and "\<not> hasKernel k"
  shows "if nVariates c = 0
         then createInputVariates 0 0 c
                = Some (Inl InternalError, c\<lparr>currentState := createVariates\<rparr>)
         else (0 < variatesPoolSize c \<and> nVariates c * size_n k \<le> variatesPoolSize c
               \<longrightarrow> createInputVariates 0 0 c = Some (Inr [], c\<lparr>currentState := createVariates\<rparr>))"
proof -
  have a: "assignIds 0 0 (nVars c) = ([], nVars c)"
    by (simp add: assignIds_spec)
  have c1: "c\<lparr>currentState := createVariates, nVars := nVars c, nVariates := nVariates c\<rparr>
              = c\<lparr>currentState := createVariates\<rparr>"
    by simp
  have cv: "createInputVariates 0 0 c =
     (case updateVariatesPool (c\<lparr>currentState := createVariates\<rparr>) of
        None \<Rightarrow> None
      | Some (Inl e, c2) \<Rightarrow> Some (Inl e, c2)
      | Some (Inr u, c2) \<Rightarrow> Some (Inr [], c2))"
    using assms by (auto simp add: createInputVariates_def a c1 split: option.splits sum.splits)
  show ?thesis
  proof (cases "nVariates c = 0")
    case True
    then show ?thesis by (simp add: cv updateVariatesPool_def)
  next
    case False
    then have "0 < nVariates c" by (simp add: word_greater_zero_iff)
    then show ?thesis using False assms(3)
      by (auto simp add: cv updateVariatesPool_def)
  qed
qed

text \<open>
  C5. \<^verbatim>\<open>createInputVariates(0, 0)\<close> does not return an empty matrix in every valid state.
  As the first call after \<^verbatim>\<open>initiateCalculation\<close> it fails: \<^verbatim>\<open>updateVariatesPool\<close> is
  called whatever the number of variates is, and its first statement requires
  \<^verbatim>\<open>nVariates_ > 0\<close>, with the message \<^verbatim>\<open>internal error, got nVariates_ == 0\<close>. The state
  is \<open>createVariates\<close> by then. The same call after \<^verbatim>\<open>createInputVariates(2, 3)\<close> returns
  the empty matrix. In both cases the pool and the device are left alone.
\<close>

theorem createInputVariates_zero_internal_error:
  "currentState scenario_initiated = createInput
   \<and> nVariates scenario_initiated = 0
   \<and> createInputVariates 0 0 scenario_initiated
       = Some (Inl InternalError, scenario_initiated\<lparr>currentState := createVariates\<rparr>)
   \<and> currentState variates_created = createVariates
   \<and> nVariates variates_created = 6 \<and> variatesPoolSize variates_created = 624
   \<and> createInputVariates 0 0 variates_created
       = Some (Inr [], variates_created\<lparr>currentState := createVariates\<rparr>)"
proof -
  have k1: "calc_at (calcs scenario_initiated) (currentId scenario_initiated)
      = Some \<lparr>size_n = 4, disposed = False, hasKernel = False, version = 0,
               program = 0, kernel = 0, inputBufferSize = 0, nOutputVars = 0\<rparr>"
    by (simp add: scenario_initiated_fields)
  have s1: "currentState scenario_initiated = createInput \<or> currentState scenario_initiated = createVariates"
    "0 < currentId scenario_initiated"
    by (simp_all add: scenario_initiated_fields)
  have k2: "calc_at (calcs variates_created) (currentId variates_created)
      = Some \<lparr>size_n = 4, disposed = False, hasKernel = False, version = 0,
               program = 0, kernel = 0, inputBufferSize = 0, nOutputVars = 0\<rparr>"
    by (simp add: variates_created_fields)
  have s2: "currentState variates_created = createInput \<or> currentState variates_created = createVariates"
    "0 < currentId variates_created"
    by (simp_all add: variates_created_fields)
  from createInputVariates_zero [OF s1 k1] createInputVariates_zero [OF s2 k2]
  show ?thesis
    by (simp add: variates_created_fields scenario_initiated_fields word_le_nat_alt)
qed

end
